theory Spec2Isabelle
  imports Complex_Main "HOL-Library.Log_Nat"
begin

section \<open>JavaScript numbers\<close>

text \<open>
  The library computes with JavaScript \<^verbatim>\<open>number\<close>s, that is IEEE 754 binary64 values.
  A number is modelled in sign-magnitude form: \<open>Num s m\<close> is the finite value with sign
  \<open>s\<close> (\<open>True\<close> for negative) and magnitude \<open>m\<close>, a non-negative rational;
  \<open>Num True 0\<close> is the negative zero. \<open>Infinity s\<close> are the two infinities and \<open>NaN\<close>
  the not-a-number value. Every arithmetic operation computes the exact rational result
  and rounds it to the nearest representable magnitude, ties to even, overflowing to an
  infinity, as the standard prescribes.
\<close>

datatype number = Num bool rat | Infinity bool | NaN

text \<open>Powers of two with an integer exponent.\<close>

definition pow2 :: "int \<Rightarrow> rat" where
  "pow2 k = 2 powi k"

text \<open>
  The binary exponent \<open>\<lfloor>log\<^sub>2 x\<rfloor>\<close> of a positive rational, from the bit lengths of its
  numerator and denominator.
\<close>

definition ilog2 :: "rat \<Rightarrow> int" where
  "ilog2 x = (let (p, q) = quotient_of x; d = bitlen p - bitlen q
              in if pow2 d \<le> x then d else d - 1)"

text \<open>
  The spacing of binary64 values around \<open>x\<close>: 52 fraction bits below the binary exponent,
  which is never taken below the exponent \<open>-1022\<close> of the subnormal range.
\<close>

definition quantum :: "rat \<Rightarrow> rat" where
  "quantum x = pow2 (max (ilog2 x) (- 1022) - 52)"

definition round_half_even :: "rat \<Rightarrow> int" where
  "round_half_even y =
     (let n = \<lfloor>y\<rfloor>; d = y - of_int n
      in if d < 1 / 2 then n
         else if 1 / 2 < d then n + 1
         else if even n then n else n + 1)"

text \<open>
  Rounding of a non-negative magnitude; \<open>None\<close> is overflow (the rounded magnitude would
  reach \<open>2\<^sup>1\<^sup>0\<^sup>2\<^sup>4\<close>).
\<close>

definition round_mag :: "rat \<Rightarrow> rat option" where
  "round_mag x =
     (if x \<le> 0 then Some 0
      else let q = quantum x; r = of_int (round_half_even (x / q)) * q
           in if r < 2 ^ 1024 then Some r else None)"

definition round_signed :: "bool \<Rightarrow> rat \<Rightarrow> number" where
  "round_signed s x = (case round_mag x of Some r \<Rightarrow> Num s r | None \<Rightarrow> Infinity s)"

text \<open>A magnitude is a binary64 magnitude when it is a multiple of its own spacing.\<close>

definition is_double_mag :: "rat \<Rightarrow> bool" where
  "is_double_mag m \<longleftrightarrow>
     0 \<le> m \<and> m < 2 ^ 1024 \<and> (m = 0 \<or> of_int \<lfloor>m / quantum m\<rfloor> = m / quantum m)"

fun is_number :: "number \<Rightarrow> bool" where
  "is_number (Num s m) = is_double_mag m"
| "is_number (Infinity s) = True"
| "is_number NaN = True"

text \<open>The value of a decimal literal of the source text: the nearest binary64 value.\<close>

definition lit :: "rat \<Rightarrow> number" where
  "lit x = round_signed (x < 0) \<bar>x\<bar>"

text \<open>The exact value of a finite number.\<close>

fun val :: "number \<Rightarrow> rat" where
  "val (Num s m) = (if s then - m else m)"
| "val (Infinity s) = 0"
| "val NaN = 0"

text \<open>The operator \<^verbatim>\<open>*\<close>.\<close>

fun mul :: "number \<Rightarrow> number \<Rightarrow> number" where
  "mul NaN y = NaN"
| "mul x NaN = NaN"
| "mul (Num s m) (Num t n) = round_signed (s \<noteq> t) (m * n)"
| "mul (Num s m) (Infinity t) = (if m = 0 then NaN else Infinity (s \<noteq> t))"
| "mul (Infinity s) (Num t n) = (if n = 0 then NaN else Infinity (s \<noteq> t))"
| "mul (Infinity s) (Infinity t) = Infinity (s \<noteq> t)"

text \<open>The operator \<^verbatim>\<open>/\<close>.\<close>

fun divide_num :: "number \<Rightarrow> number \<Rightarrow> number" where
  "divide_num NaN y = NaN"
| "divide_num x NaN = NaN"
| "divide_num (Num s m) (Num t n) =
     (if n = 0 then (if m = 0 then NaN else Infinity (s \<noteq> t))
      else round_signed (s \<noteq> t) (m / n))"
| "divide_num (Num s m) (Infinity t) = Num (s \<noteq> t) 0"
| "divide_num (Infinity s) (Num t n) = Infinity (s \<noteq> t)"
| "divide_num (Infinity s) (Infinity t) = NaN"

text \<open>
  The operator \<^verbatim>\<open>-\<close>. An exact difference of zero is the positive zero, except that
  \<open>(-0) - (+0)\<close> is the negative zero.
\<close>

fun sub :: "number \<Rightarrow> number \<Rightarrow> number" where
  "sub NaN y = NaN"
| "sub x NaN = NaN"
| "sub (Num s m) (Num t n) =
     (let d = val (Num s m) - val (Num t n)
      in if d = 0 then Num (m = 0 \<and> n = 0 \<and> s \<and> \<not> t) 0
         else round_signed (d < 0) \<bar>d\<bar>)"
| "sub (Num s m) (Infinity t) = Infinity (\<not> t)"
| "sub (Infinity s) (Num t n) = Infinity s"
| "sub (Infinity s) (Infinity t) = (if s = t then NaN else Infinity s)"

text \<open>\<^verbatim>\<open>Math.abs\<close>.\<close>

fun abs_num :: "number \<Rightarrow> number" where
  "abs_num (Num s m) = Num False m"
| "abs_num (Infinity s) = Infinity False"
| "abs_num NaN = NaN"

text \<open>The global \<^verbatim>\<open>isNaN\<close> on a number.\<close>

fun isNaN :: "number \<Rightarrow> bool" where
  "isNaN NaN = True"
| "isNaN x = False"

text \<open>The comparison \<^verbatim>\<open><\<close>; any comparison with \<open>NaN\<close> is false.\<close>

fun lt :: "number \<Rightarrow> number \<Rightarrow> bool" where
  "lt NaN y = False"
| "lt x NaN = False"
| "lt (Num s m) (Num t n) = (val (Num s m) < val (Num t n))"
| "lt (Num s m) (Infinity t) = (\<not> t)"
| "lt (Infinity s) (Num t n) = s"
| "lt (Infinity s) (Infinity t) = (s \<and> \<not> t)"

definition gt :: "number \<Rightarrow> number \<Rightarrow> bool" where
  "gt x y = lt y x"

text \<open>
  The comparison \<^verbatim>\<open>>=\<close>: false when an operand is \<open>NaN\<close>, and otherwise the
  negation of \<^verbatim>\<open><\<close>.
\<close>

definition ge :: "number \<Rightarrow> number \<Rightarrow> bool" where
  "ge x y = (\<not> isNaN x \<and> \<not> isNaN y \<and> \<not> lt x y)"

text \<open>
  Strict equality \<^verbatim>\<open>===\<close> on numbers: \<open>NaN\<close> is not equal to itself and the two zeros
  are equal.
\<close>

fun strict_eq :: "number \<Rightarrow> number \<Rightarrow> bool" where
  "strict_eq NaN y = False"
| "strict_eq x NaN = False"
| "strict_eq (Num s m) (Num t n) = (val (Num s m) = val (Num t n))"
| "strict_eq (Infinity s) (Infinity t) = (s = t)"
| "strict_eq x y = False"

section \<open>Strings\<close>

text \<open>
  Unit strings and metric keys are modelled as lists of characters; a character outside
  ASCII is a sequence of characters with the top bit set. On ASCII text
  \<^verbatim>\<open>toLowerCase\<close> maps \<open>A\<close> to \<open>Z\<close> to \<open>a\<close> to \<open>z\<close>, and \<^verbatim>\<open>trim\<close> strips tab, line
  feed, vertical tab, form feed, carriage return and space from both ends. On text with
  characters outside ASCII both follow the Unicode character database (case mappings
  such as that of the Kelvin sign to \<open>k\<close>, white space such as the no-break space):
  there the two functions are the fields of a parameter of the model, about which
  nothing is assumed.
\<close>

record unicode =
  unicode_toLowerCase :: "string \<Rightarrow> string"
  unicode_trim :: "string \<Rightarrow> string"

definition is_ascii :: "string \<Rightarrow> bool" where
  "is_ascii s = list_all (\<lambda>c. \<not> digit7 c) s"

definition toLowerCase_char :: "char \<Rightarrow> char" where
  "toLowerCase_char c =
     (case map_of (zip ''ABCDEFGHIJKLMNOPQRSTUVWXYZ'' ''abcdefghijklmnopqrstuvwxyz'') c of
        Some l \<Rightarrow> l
      | None \<Rightarrow> c)"

definition toLowerCase :: "unicode \<Rightarrow> string \<Rightarrow> string" where
  "toLowerCase U s =
     (if is_ascii s then map toLowerCase_char s else unicode_toLowerCase U s)"

definition is_space :: "char \<Rightarrow> bool" where
  "is_space c = (c \<in> set [CHR 0x09, CHR 0x0A, CHR 0x0B, CHR 0x0C, CHR 0x0D, CHR 0x20])"

definition trim :: "unicode \<Rightarrow> string \<Rightarrow> string" where
  "trim U s =
     (if is_ascii s then rev (dropWhile is_space (rev (dropWhile is_space s)))
      else unicode_trim U s)"

text \<open>\<^verbatim>\<open>s.includes(p)\<close>: \<open>p\<close> occurs in \<open>s\<close> as a contiguous substring.\<close>

fun str_includes :: "string \<Rightarrow> string \<Rightarrow> bool" where
  "str_includes [] p = (p = [])"
| "str_includes (c # cs) p = (take (length p) (c # cs) = p \<or> str_includes cs p)"

section \<open>The unit table (units.ts)\<close>

record conversion =
  factor :: number
  base :: string

text \<open>
  The units module is modelled in its later version, the one with the pass-through
  units and the nine metric types, which the test suite exercises (the repository also
  holds an earlier version with the convertible units only).
  \<^verbatim>\<open>TO_BASE_FACTORS\<close> is an object literal with seventeen own properties: the eleven
  convertible units and six pass-through units. The factor of \<^verbatim>\<open>'km/h'\<close> is computed
  by the division \<^verbatim>\<open>1/3.6\<close>; the others are literals.
\<close>

definition TO_BASE_FACTORS :: "(string \<times> conversion) list" where
  "TO_BASE_FACTORS =
     [(''kg'', \<lparr>factor = lit 1, base = ''kg''\<rparr>),
      (''lb'', \<lparr>factor = lit (45359237 / 100000000), base = ''kg''\<rparr>),
      (''m'', \<lparr>factor = lit 1, base = ''m''\<rparr>),
      (''cm'', \<lparr>factor = lit (1 / 100), base = ''m''\<rparr>),
      (''in'', \<lparr>factor = lit (254 / 10000), base = ''m''\<rparr>),
      (''ft'', \<lparr>factor = lit (3048 / 10000), base = ''m''\<rparr>),
      (''s'', \<lparr>factor = lit 1, base = ''s''\<rparr>),
      (''min'', \<lparr>factor = lit 60, base = ''s''\<rparr>),
      (''m/s'', \<lparr>factor = lit 1, base = ''m/s''\<rparr>),
      (''km/h'', \<lparr>factor = divide_num (lit 1) (lit (36 / 10)), base = ''m/s''\<rparr>),
      (''mph'', \<lparr>factor = lit (44704 / 100000), base = ''m/s''\<rparr>),
      (''count'', \<lparr>factor = lit 1, base = ''count''\<rparr>),
      (''percent'', \<lparr>factor = lit 1, base = ''percent''\<rparr>),
      (''score'', \<lparr>factor = lit 1, base = ''score''\<rparr>),
      (''reps'', \<lparr>factor = lit 1, base = ''reps''\<rparr>),
      (''%'', \<lparr>factor = lit 1, base = ''%''\<rparr>),
      (''level'', \<lparr>factor = lit 1, base = ''level''\<rparr>)]"

text \<open>
  The table is indexed with \<^verbatim>\<open>TO_BASE_FACTORS[displayUnit]\<close>, a property lookup on an
  ordinary object. A key that is not an own property of the table is looked up in
  \<^verbatim>\<open>Object.prototype\<close>, whose properties are listed here; each of them is a function or
  an object, hence truthy, and none has a \<^verbatim>\<open>factor\<close> or \<^verbatim>\<open>base\<close> property.
\<close>

definition object_prototype_keys :: "string list" where
  "object_prototype_keys =
     [''constructor'', ''hasOwnProperty'', ''isPrototypeOf'', ''propertyIsEnumerable'',
      ''toLocaleString'', ''toString'', ''valueOf'', ''__proto__'',
      ''__defineGetter__'', ''__defineSetter__'', ''__lookupGetter__'', ''__lookupSetter__'']"

datatype property = Own conversion | Inherited | Undefined

definition lookup :: "string \<Rightarrow> property" where
  "lookup displayUnit =
     (case map_of TO_BASE_FACTORS displayUnit of
        Some c \<Rightarrow> Own c
      | None \<Rightarrow> if displayUnit \<in> set object_prototype_keys then Inherited else Undefined)"

text \<open>A unit is registered when it is a key of the table itself.\<close>

definition registered :: "string \<Rightarrow> bool" where
  "registered u = (u \<in> set (map fst TO_BASE_FACTORS))"

text \<open>The errors thrown by the conversion functions, with the data of their messages.\<close>

datatype error =
    UnknownDisplayUnit string
  | InvalidUnits string string
  | DifferentBaseUnits "string option" "string option"
  | RangeError

text \<open>
  \<^verbatim>\<open>toBase\<close> throws when the looked-up property is falsy, that is undefined. For an
  inherited property, \<^verbatim>\<open>conversion.factor\<close> is \<^verbatim>\<open>undefined\<close> and the product
  \<^verbatim>\<open>value * undefined\<close> is \<open>NaN\<close>.
\<close>

definition toBase :: "number \<Rightarrow> string \<Rightarrow> error + number" where
  "toBase v displayUnit =
     (case lookup displayUnit of
        Undefined \<Rightarrow> Inl (UnknownDisplayUnit displayUnit)
      | Own conversion \<Rightarrow> Inr (mul v (factor conversion))
      | Inherited \<Rightarrow> Inr NaN)"

definition fromBase :: "number \<Rightarrow> string \<Rightarrow> error + number" where
  "fromBase baseValue displayUnit =
     (case lookup displayUnit of
        Undefined \<Rightarrow> Inl (UnknownDisplayUnit displayUnit)
      | Own conversion \<Rightarrow> Inr (divide_num baseValue (factor conversion))
      | Inherited \<Rightarrow> Inr NaN)"

text \<open>The \<^verbatim>\<open>base\<close> property of a looked-up value; \<open>None\<close> is \<^verbatim>\<open>undefined\<close>.\<close>

fun base_of :: "property \<Rightarrow> string option" where
  "base_of (Own conversion) = Some (base conversion)"
| "base_of Inherited = None"
| "base_of Undefined = None"

definition getBaseUnit :: "string \<Rightarrow> error + string option" where
  "getBaseUnit displayUnit =
     (case lookup displayUnit of
        Undefined \<Rightarrow> Inl (UnknownDisplayUnit displayUnit)
      | p \<Rightarrow> Inr (base_of p))"

text \<open>
  \<^verbatim>\<open>validateRoundTrip\<close>; the tolerance is optional and defaults to \<^verbatim>\<open>1e-10\<close>.
\<close>

definition validateRoundTrip :: "number \<Rightarrow> string \<Rightarrow> number option \<Rightarrow> error + bool" where
  "validateRoundTrip v unit tolerance =
     (case toBase v unit of
        Inl e \<Rightarrow> Inl e
      | Inr baseValue \<Rightarrow>
          (case fromBase baseValue unit of
             Inl e \<Rightarrow> Inl e
           | Inr backToDisplay \<Rightarrow>
               Inr (lt (abs_num (sub v backToDisplay))
                       (case tolerance of None \<Rightarrow> lit (1 / 10 ^ 10) | Some t \<Rightarrow> t))))"

definition convertUnit :: "number \<Rightarrow> string \<Rightarrow> string \<Rightarrow> error + number" where
  "convertUnit v fromUnit toUnit =
     (let fromConversion = lookup fromUnit; toConversion = lookup toUnit
      in if fromConversion = Undefined \<or> toConversion = Undefined
         then Inl (InvalidUnits fromUnit toUnit)
         else if base_of fromConversion \<noteq> base_of toConversion
         then Inl (DifferentBaseUnits (base_of fromConversion) (base_of toConversion))
         else (case toBase v fromUnit of
                 Inl e \<Rightarrow> Inl e
               | Inr baseValue \<Rightarrow> fromBase baseValue toUnit))"

section \<open>Preferences and metric types (units.ts)\<close>

datatype metric_type =
  Mass | Distance | Length | Time | Speed | Count | Percent | Score | Reps




text \<open>\<^verbatim>\<open>list.some(m => metricKey.includes(m))\<close>.\<close>

fun includes_some :: "string \<Rightarrow> string list \<Rightarrow> bool" where
  "includes_some metricKey [] = False"
| "includes_some metricKey (m # ms) = (str_includes metricKey m \<or> includes_some metricKey ms)"

text \<open>The lists of test names that \<^verbatim>\<open>getMetricType\<close> declares.\<close>

definition scoreMetrics :: "string list" where
  "scoreMetrics =
     [''deep_squat'', ''overhead_squat'', ''shoulder_mobility'', ''trunk_stability'',
      ''rotary_stability'']"

definition countMetrics :: "string list" where
  "countMetrics = [''push_ups'', ''sit_ups'', ''attempts'']"

definition repsMetrics :: "string list" where
  "repsMetrics = [''max_reps'', ''total_reps'']"

definition massMetrics :: "string list" where
  "massMetrics = [''body_weight'', ''max_weight'', ''load'']"

definition lengthMetrics :: "string list" where
  "lengthMetrics = [''height'', ''reach'', ''arm_span'', ''leg_length'', ''torso_length'']"

definition distanceMetrics :: "string list" where
  "distanceMetrics = [''vertical_jump'', ''broad_jump'', ''sprint_distance'', ''throw_distance'']"

definition timeMetrics :: "string list" where
  "timeMetrics = [''sprint_time'', ''reaction_time'', ''hold_time'']"

definition speedMetrics :: "string list" where
  "speedMetrics = [''max_speed'', ''average_speed'']"

text \<open>
  \<^verbatim>\<open>getMetricType\<close>: the scan for the keywords of the pass-through families, the scan
  for the keywords of the convertible families, the lists of test names, and the
  fallback.
\<close>

definition getMetricType :: "string \<Rightarrow> metric_type" where
  "getMetricType metricKey =
     (if str_includes metricKey ''score'' \<or> str_includes metricKey ''fms''
         \<or> str_includes metricKey ''rating'' then Score
      else if str_includes metricKey ''count'' \<or> str_includes metricKey ''number'' then Count
      else if str_includes metricKey ''percent'' \<or> str_includes metricKey ''%'' then Percent
      else if str_includes metricKey ''reps'' \<or> str_includes metricKey ''repetitions''
      then Reps
      else if str_includes metricKey ''weight'' \<or> str_includes metricKey ''mass'' then Mass
      else if str_includes metricKey ''height'' \<or> str_includes metricKey ''reach''
              \<or> str_includes metricKey ''span'' then Length
      else if str_includes metricKey ''distance'' \<or> str_includes metricKey ''jump''
      then Distance
      else if str_includes metricKey ''time'' \<or> str_includes metricKey ''duration'' then Time
      else if str_includes metricKey ''speed'' \<or> str_includes metricKey ''velocity''
      then Speed
      else if includes_some metricKey scoreMetrics then Score
      else if includes_some metricKey countMetrics then Count
      else if includes_some metricKey repsMetrics then Reps
      else if includes_some metricKey massMetrics then Mass
      else if includes_some metricKey lengthMetrics then Length
      else if includes_some metricKey distanceMetrics then Distance
      else if includes_some metricKey timeMetrics then Time
      else if includes_some metricKey speedMetrics then Speed
      else Distance)"

text \<open>
  The safe conversions take \<^verbatim>\<open>number | null | undefined\<close>; \<open>None\<close> stands for
  \<^verbatim>\<open>null\<close> and \<^verbatim>\<open>undefined\<close> on input and for \<^verbatim>\<open>null\<close> on output. The
  \<^verbatim>\<open>catch\<close> block turns every thrown error into \<^verbatim>\<open>null\<close>.
\<close>

definition safeConvertToBase :: "number option \<Rightarrow> string \<Rightarrow> number option" where
  "safeConvertToBase v displayUnit =
     (case v of
        None \<Rightarrow> None
      | Some x \<Rightarrow>
          if isNaN x then None
          else (case toBase x displayUnit of Inr r \<Rightarrow> Some r | Inl e \<Rightarrow> None))"

definition safeConvertFromBase :: "number option \<Rightarrow> string \<Rightarrow> number option" where
  "safeConvertFromBase baseValue displayUnit =
     (case baseValue of
        None \<Rightarrow> None
      | Some x \<Rightarrow>
          if isNaN x then None
          else (case fromBase x displayUnit of Inr r \<Rightarrow> Some r | Inl e \<Rightarrow> None))"

section \<open>Formatting (units.ts, formatting.ts)\<close>









record FormattedValue =
  displayValue :: "number option"
  formattedValue :: string
  unit :: string


section \<open>Migration of legacy test results (migration-utils.ts)\<close>

record identified =
  result_id :: string

record TestResultMigrationData = identified +
  test_key :: string
  "value" :: number
  units :: "string option"

record MigratedTestResult = identified +
  value_base :: number
  value_raw :: number
  unit_raw :: "string option"

definition normalizeUnitString :: "unicode \<Rightarrow> string \<Rightarrow> string" where
  "normalizeUnitString U u =
     (let normalized = trim U (toLowerCase U u)
      in if normalized = ''kg'' \<or> normalized = ''kilogram'' \<or> normalized = ''kilograms''
         then ''kg''
         else if normalized = ''lb'' \<or> normalized = ''lbs'' \<or> normalized = ''pound''
                 \<or> normalized = ''pounds''
         then ''lb''
         else if normalized = ''m'' \<or> normalized = ''meter'' \<or> normalized = ''meters''
                 \<or> normalized = ''metre'' \<or> normalized = ''metres''
         then ''m''
         else if normalized = ''cm'' \<or> normalized = ''centimeter''
                 \<or> normalized = ''centimeters'' \<or> normalized = ''centimetre''
                 \<or> normalized = ''centimetres''
         then ''cm''
         else if normalized = ''in'' \<or> normalized = ''inch'' \<or> normalized = ''inches''
                 \<or> normalized = [CHR 0x22]
         then ''in''
         else if normalized = ''ft'' \<or> normalized = ''foot'' \<or> normalized = ''feet''
                 \<or> normalized = [CHR 0x27]
         then ''ft''
         else if normalized = ''s'' \<or> normalized = ''sec'' \<or> normalized = ''second''
                 \<or> normalized = ''seconds''
         then ''s''
         else if normalized = ''min'' \<or> normalized = ''minute'' \<or> normalized = ''minutes''
         then ''min''
         else if normalized = ''m/s'' \<or> normalized = ''mps'' \<or> normalized = ''meters/second''
                 \<or> normalized = ''metres/second''
         then ''m/s''
         else if normalized = ''km/h'' \<or> normalized = ''kmh'' \<or> normalized = ''kph''
                 \<or> normalized = ''kilometers/hour''
         then ''km/h''
         else if normalized = ''mph'' \<or> normalized = ''miles/hour''
                 \<or> normalized = ''miles per hour''
         then ''mph''
         else u)"

text \<open>
  \<^verbatim>\<open>migrateTestResult\<close>. The test \<^verbatim>\<open>!units\<close> holds for \<^verbatim>\<open>null\<close> and for the empty
  string. The \<^verbatim>\<open>catch\<close> block returns the record with the original value as base value;
  the warning it writes to the console is not part of the result.
\<close>

definition passthrough :: "TestResultMigrationData \<Rightarrow> MigratedTestResult" where
  "passthrough r =
     \<lparr>result_id = result_id r, value_base = value r, value_raw = value r, unit_raw = units r\<rparr>"

definition migrateTestResult ::
  "unicode \<Rightarrow> TestResultMigrationData \<Rightarrow> MigratedTestResult" where
  "migrateTestResult U r =
     (case units r of
        None \<Rightarrow> passthrough r
      | Some u \<Rightarrow>
          if u = [] \<or> trim U u = [] then passthrough r
          else (case toBase (value r) (normalizeUnitString U u) of
                  Inr vb \<Rightarrow>
                    \<lparr>result_id = result_id r, value_base = vb, value_raw = value r,
                     unit_raw = units r\<rparr>
                | Inl e \<Rightarrow> passthrough r))"

definition migrateTestResults ::
  "unicode \<Rightarrow> TestResultMigrationData list \<Rightarrow> MigratedTestResult list" where
  "migrateTestResults U results = map (migrateTestResult U) results"

text \<open>
  The messages of the validation report, with the data their texts are built from.
\<close>

datatype message =
    LengthMismatch nat nat
  | IdMismatch nat string string
  | ValueRawMismatch string number number
  | UnitRawMismatch string "string option" "string option"
  | SuspiciousConversion string number "string option" number number

record validation_stats =
  total :: nat
  converted :: nat
  unchanged :: nat
  failed :: nat

record validation_report =
  success :: bool
  errors :: "message list"
  warnings :: "message list"
  stats :: validation_stats

text \<open>
  One iteration of the loop of \<^verbatim>\<open>validateMigration\<close>, on the local variables
  \<open>(errors, warnings, converted, unchanged, failed)\<close>; \<^verbatim>\<open>push\<close> appends.
\<close>

type_synonym validation_state = "message list \<times> message list \<times> nat \<times> nat \<times> nat"

text \<open>The components of the loop state.\<close>

fun st_errors :: "validation_state \<Rightarrow> message list" where
  "st_errors (es, ws, c, u, f) = es"

fun st_warnings :: "validation_state \<Rightarrow> message list" where
  "st_warnings (es, ws, c, u, f) = ws"

fun st_converted :: "validation_state \<Rightarrow> nat" where
  "st_converted (es, ws, c, u, f) = c"

fun st_unchanged :: "validation_state \<Rightarrow> nat" where
  "st_unchanged (es, ws, c, u, f) = u"

fun st_failed :: "validation_state \<Rightarrow> nat" where
  "st_failed (es, ws, c, u, f) = f"

definition check_conversion ::
  "TestResultMigrationData \<Rightarrow> MigratedTestResult \<Rightarrow> validation_state \<Rightarrow> validation_state" where
  "check_conversion orig mig st =
     (case st of (es, ws, c, u, f) \<Rightarrow>
        if lt (abs_num (sub (value orig) (value_base mig))) (lit (1 / 10 ^ 10))
        then (es, ws, c, u + 1, f)
        else (let ratio = divide_num (value_base mig) (value orig)
              in if lt ratio (lit (1 / 1000)) \<or> gt ratio (lit 1000)
                 then (es, ws @ [SuspiciousConversion (result_id orig) (value orig) (units orig)
                                   (value_base mig) ratio], c + 1, u, f)
                 else (es, ws, c + 1, u, f)))"

definition check_value_raw ::
  "TestResultMigrationData \<Rightarrow> MigratedTestResult \<Rightarrow> validation_state \<Rightarrow> validation_state" where
  "check_value_raw orig mig st =
     (case st of (es, ws, c, u, f) \<Rightarrow>
        if \<not> strict_eq (value_raw mig) (value orig)
        then (es @ [ValueRawMismatch (result_id orig) (value_raw mig) (value orig)], ws, c, u, f + 1)
        else (es, ws, c, u, f))"

definition check_unit_raw ::
  "TestResultMigrationData \<Rightarrow> MigratedTestResult \<Rightarrow> validation_state \<Rightarrow> validation_state" where
  "check_unit_raw orig mig st =
     (case st of (es, ws, c, u, f) \<Rightarrow>
        if unit_raw mig \<noteq> units orig
        then (es @ [UnitRawMismatch (result_id orig) (unit_raw mig) (units orig)], ws, c, u, f + 1)
        else (es, ws, c, u, f))"

definition validate_step ::
  "nat \<Rightarrow> TestResultMigrationData \<Rightarrow> MigratedTestResult \<Rightarrow> validation_state \<Rightarrow> validation_state"
  where
  "validate_step i orig mig st =
     (case st of (es, ws, c, u, f) \<Rightarrow>
        if result_id orig \<noteq> result_id mig
        then (es @ [IdMismatch i (result_id orig) (result_id mig)], ws, c, u, f + 1)
        else check_unit_raw orig mig (check_value_raw orig mig (check_conversion orig mig st)))"

text \<open>The loop over the indices \<open>i, i + 1, \<dots>\<close> of two sequences of the same length.\<close>

fun validate_loop ::
  "nat \<Rightarrow> TestResultMigrationData list \<Rightarrow> MigratedTestResult list \<Rightarrow> validation_state
     \<Rightarrow> validation_state" where
  "validate_loop i (orig # original) (mig # migrated) st =
     validate_loop (i + 1) original migrated (validate_step i orig mig st)"
| "validate_loop i original migrated st = st"

definition validateMigration ::
  "TestResultMigrationData list \<Rightarrow> MigratedTestResult list \<Rightarrow> validation_report" where
  "validateMigration original migrated =
     (if length original \<noteq> length migrated
      then \<lparr>success = False,
            errors = [LengthMismatch (length original) (length migrated)],
            warnings = [],
            stats = \<lparr>total = length original, converted = 0, unchanged = 0,
                     failed = length original\<rparr>\<rparr>
      else (case validate_loop 0 original migrated ([], [], 0, 0, 0) of
              (es, ws, c, u, f) \<Rightarrow>
                \<lparr>success = (es = []), errors = es, warnings = ws,
                 stats = \<lparr>total = length original, converted = c, unchanged = u,
                          failed = f\<rparr>\<rparr>))"

text \<open>
  The specification's description of a converted record:
  \<^verbatim>\<open>|orig.value - mig.value_base| >= 1e-10\<close>. The code classifies by the negation of
  \<^verbatim>\<open>Math.abs(orig.value - mig.value_base) < 1e-10\<close> instead; the two are compared below.
\<close>

definition spec_converted :: "TestResultMigrationData \<Rightarrow> MigratedTestResult \<Rightarrow> bool" where
  "spec_converted orig mig =
     ge (abs_num (sub (value orig) (value_base mig))) (lit (1 / 10 ^ 10))"

section \<open>Properties of rounding\<close>

lemma pow2_pos: "0 < pow2 k"
  by (simp add: pow2_def)

lemma pow2_add: "pow2 (a + b) = pow2 a * pow2 b"
  by (simp add: pow2_def power_int_add)

lemma pow2_mono: "a \<le> b \<Longrightarrow> pow2 a \<le> pow2 b"
  by (simp add: pow2_def power_int_increasing)

lemma pow2_strict_mono: "a < b \<Longrightarrow> pow2 a < pow2 b"
  by (simp add: pow2_def power_int_strict_increasing)

lemma pow2_nat: "pow2 (int n) = 2 ^ n"
  by (simp add: pow2_def)

lemma pow2_diff: "pow2 (a - b) = pow2 a / pow2 b"
  by (simp add: pow2_def power_int_diff)

lemma ilog2_bounds:
  assumes "0 < x"
  shows "pow2 (ilog2 x) \<le> x \<and> x < pow2 (ilog2 x + 1)"
proof -
  obtain p q where pq: "quotient_of x = (p, q)" by (cases "quotient_of x")
  have q: "0 < q" using pq quotient_of_denom_pos by blast
  have x: "x = of_int p / of_int q" using pq quotient_of_div by blast
  have p: "0 < p" using assms q x by (simp add: zero_less_divide_iff)
  let ?d = "bitlen p - bitlen q"
  have bp: "2 ^ nat (bitlen p - 1) \<le> p" "p < 2 ^ nat (bitlen p)"
    using bitlen_bounds[OF p] by auto
  have bq: "2 ^ nat (bitlen q - 1) \<le> q" "q < 2 ^ nat (bitlen q)"
    using bitlen_bounds[OF q] by auto
  have bp1: "1 \<le> bitlen p" using p by (simp add: bitlen_alt_def)
  have bq1: "1 \<le> bitlen q" using q by (simp add: bitlen_alt_def)
  have P1: "pow2 (bitlen p - 1) \<le> of_int p"
  proof -
    have "(of_int (2 ^ nat (bitlen p - 1)) :: rat) \<le> of_int p" using bp(1) by (simp only: of_int_le_iff)
    moreover have "pow2 (bitlen p - 1) = 2 ^ nat (bitlen p - 1)" using bp1 pow2_nat[of "nat (bitlen p - 1)"] by simp
    ultimately show ?thesis by simp
  qed
  have P2: "of_int p < pow2 (bitlen p)"
  proof -
    have "(of_int p :: rat) < of_int (2 ^ nat (bitlen p))" using bp(2) by (simp only: of_int_less_iff)
    moreover have "pow2 (bitlen p) = 2 ^ nat (bitlen p)" using bp1 pow2_nat[of "nat (bitlen p)"] by simp
    ultimately show ?thesis by simp
  qed
  have Q1: "pow2 (bitlen q - 1) \<le> of_int q"
  proof -
    have "(of_int (2 ^ nat (bitlen q - 1)) :: rat) \<le> of_int q" using bq(1) by (simp only: of_int_le_iff)
    moreover have "pow2 (bitlen q - 1) = 2 ^ nat (bitlen q - 1)" using bq1 pow2_nat[of "nat (bitlen q - 1)"] by simp
    ultimately show ?thesis by simp
  qed
  have Q2: "of_int q < pow2 (bitlen q)"
  proof -
    have "(of_int q :: rat) < of_int (2 ^ nat (bitlen q))" using bq(2) by (simp only: of_int_less_iff)
    moreover have "pow2 (bitlen q) = 2 ^ nat (bitlen q)" using bq1 pow2_nat[of "nat (bitlen q)"] by simp
    ultimately show ?thesis by simp
  qed
  have qr: "(0::rat) < of_int q" using q by simp
  have lower: "pow2 (?d - 1) \<le> x"
  proof -
    have "pow2 (?d - 1) * of_int q \<le> pow2 (?d - 1) * pow2 (bitlen q)"
      using Q2 pow2_pos[of "?d - 1"] by (intro mult_left_mono) (auto simp: less_imp_le)
    also have "\<dots> = pow2 (bitlen p - 1)" by (simp add: pow2_add[symmetric])
    also have "\<dots> \<le> of_int p" by (rule P1)
    finally show ?thesis using qr by (simp add: x pos_le_divide_eq)
  qed
  have upper: "x < pow2 (?d + 1)"
  proof -
    have "of_int p < pow2 (bitlen p)" by (rule P2)
    also have "\<dots> = pow2 (?d + 1) * pow2 (bitlen q - 1)" by (simp add: pow2_add[symmetric])
    also have "\<dots> \<le> pow2 (?d + 1) * of_int q"
      using Q1 pow2_pos[of "?d + 1"] by (intro mult_left_mono) (auto simp: less_imp_le)
    finally show ?thesis using qr by (simp add: x pos_divide_less_eq)
  qed
  show ?thesis
  proof (cases "pow2 ?d \<le> x")
    case True
    then have "ilog2 x = ?d" by (simp add: ilog2_def pq)
    then show ?thesis using True upper by simp
  next
    case False
    then have "ilog2 x = ?d - 1" by (simp add: ilog2_def pq)
    then show ?thesis using False lower by simp
  qed
qed

lemma ilog2_unique:
  assumes "pow2 e \<le> x" "x < pow2 (e + 1)"
  shows "ilog2 x = e"
proof -
  have x: "0 < x" using assms(1) pow2_pos[of e] by simp
  have b: "pow2 (ilog2 x) \<le> x" "x < pow2 (ilog2 x + 1)" using ilog2_bounds[OF x] by auto
  have "\<not> ilog2 x + 1 \<le> e"
  proof
    assume "ilog2 x + 1 \<le> e"
    then have "pow2 (ilog2 x + 1) \<le> pow2 e" by (rule pow2_mono)
    then show False using b(2) assms(1) by simp
  qed
  moreover have "\<not> e + 1 \<le> ilog2 x"
  proof
    assume "e + 1 \<le> ilog2 x"
    then have "pow2 (e + 1) \<le> pow2 (ilog2 x)" by (rule pow2_mono)
    then show False using b(1) assms(2) by simp
  qed
  ultimately show ?thesis by simp
qed

lemma round_half_even_error: "\<bar>of_int (round_half_even y) - y\<bar> \<le> 1 / 2"
proof -
  define n where "n = \<lfloor>y\<rfloor>"
  have "of_int n \<le> y" "y < of_int n + 1" unfolding n_def by linarith+
  then show ?thesis
    unfolding round_half_even_def Let_def n_def[symmetric] by (auto simp: abs_if)
qed

lemma round_half_even_near:
  assumes "\<bar>y - of_int n\<bar> < 1 / 2"
  shows "round_half_even y = n"
proof -
  have e: "\<bar>of_int (round_half_even y) - y\<bar> \<le> 1 / 2" by (rule round_half_even_error)
  have "\<bar>(of_int (round_half_even y) :: rat) - of_int n\<bar> < 1" using e assms by linarith
  then have "\<bar>(of_int (round_half_even y - n) :: rat)\<bar> < 1" by simp
  then have "\<bar>round_half_even y - n\<bar> < 1"
    by (metis of_int_abs of_int_less_1_iff)
  then show ?thesis by simp
qed

lemma round_half_even_of_int: "round_half_even (of_int n) = n"
  by (rule round_half_even_near) simp

lemma round_half_even_ge:
  assumes "of_int k \<le> y"
  shows "k \<le> round_half_even y"
proof -
  have "k \<le> \<lfloor>y\<rfloor>" using assms by (simp add: le_floor_iff)
  moreover have "\<lfloor>y\<rfloor> \<le> round_half_even y"
    unfolding round_half_even_def Let_def by (simp only: split: if_split) simp
  ultimately show ?thesis by simp
qed

lemma quantum_eq:
  assumes "pow2 e \<le> x" "x < pow2 (e + 1)"
  shows "quantum x = pow2 (max e (- 1022) - 52)"
  using ilog2_unique[OF assms] by (simp add: quantum_def)

lemma quantum_pos: "0 < quantum x"
  by (simp add: quantum_def pow2_pos)

lemma round_mag_eqI:
  assumes "pow2 e \<le> x" "x < pow2 (e + 1)"
    and "q = pow2 (max e (- 1022) - 52)"
    and "\<bar>x / q - of_int n\<bar> < 1 / 2"
    and "of_int n * q < 2 ^ 1024"
  shows "round_mag x = Some (of_int n * q)"
proof -
  have x: "0 < x" using assms(1) pow2_pos[of e] by simp
  have q: "quantum x = q" using quantum_eq[OF assms(1,2)] assms(3) by simp
  have "round_half_even (x / q) = n" using assms(4) by (rule round_half_even_near)
  then show ?thesis using x q assms(5) by (simp add: round_mag_def Let_def)
qed

lemma quantum_le:
  assumes "0 < x"
  shows "quantum x \<le> x / 2 ^ 52 + 1 / 2 ^ 1074"
proof -
  have b: "pow2 (ilog2 x) \<le> x" using ilog2_bounds[OF assms] by simp
  have p52: "pow2 (- 52) = 1 / 2 ^ 52" by (simp add: pow2_def power_int_minus field_simps)
  have p1074: "pow2 (- 1074) = 1 / 2 ^ 1074" by (simp add: pow2_def power_int_minus field_simps)
  show ?thesis
  proof (cases "- 1022 \<le> ilog2 x")
    case True
    then have "quantum x = pow2 (ilog2 x + (- 52))" by (simp add: quantum_def max_def)
    also have "\<dots> = pow2 (ilog2 x) * (1 / 2 ^ 52)" by (simp only: pow2_add p52)
    also have "\<dots> \<le> x * (1 / 2 ^ 52)" using b by (intro mult_right_mono) auto
    finally show ?thesis by simp
  next
    case False
    then have "quantum x = pow2 (- 1074)" by (simp add: quantum_def max_def)
    then show ?thesis using assms p1074 by simp
  qed
qed

lemma round_mag_error:
  assumes "0 \<le> x" "round_mag x = Some r"
  shows "\<bar>r - x\<bar> \<le> x / 2 ^ 53 + 1 / 2 ^ 1075"
proof (cases "x = 0")
  case True
  then show ?thesis using assms by (simp add: round_mag_def)
next
  case False
  then have x: "0 < x" using assms(1) by simp
  let ?q = "quantum x"
  let ?n = "round_half_even (x / ?q)"
  have r: "r = of_int ?n * ?q"
    using assms(2) x by (simp add: round_mag_def Let_def split: if_splits)
  have q: "0 < ?q" by (rule quantum_pos)
  have "r - x = (of_int ?n - x / ?q) * ?q" using q by (simp add: r left_diff_distrib)
  then have "\<bar>r - x\<bar> = \<bar>of_int ?n - x / ?q\<bar> * ?q"
    using q by (simp add: abs_mult)
  also have "\<dots> \<le> (1 / 2) * ?q"
    using round_half_even_error[of "x / ?q"] q by (intro mult_right_mono) auto
  also have "\<dots> \<le> (1 / 2) * (x / 2 ^ 52 + 1 / 2 ^ 1074)"
    using quantum_le[OF x] by (intro mult_left_mono) auto
  also have "\<dots> = x / 2 ^ 53 + 1 / 2 ^ 1075" by simp
  finally show ?thesis .
qed

lemma round_mag_nonneg:
  assumes "0 \<le> x" "round_mag x = Some r"
  shows "0 \<le> r"
proof (cases "x = 0")
  case True
  then show ?thesis using assms by (simp add: round_mag_def)
next
  case False
  then have x: "0 < x" using assms(1) by simp
  have r: "r = of_int (round_half_even (x / quantum x)) * quantum x"
    using assms(2) x by (simp add: round_mag_def Let_def split: if_splits)
  have "(of_int 0 :: rat) \<le> x / quantum x" using x quantum_pos[of x] by simp
  then have "0 \<le> round_half_even (x / quantum x)" by (rule round_half_even_ge)
  then show ?thesis using quantum_pos[of x] by (simp add: r)
qed

lemma round_mag_finite:
  assumes "0 \<le> x" "x \<le> 2 ^ 1023"
  shows "\<exists>r. round_mag x = Some r"
proof (cases "x = 0")
  case True
  then show ?thesis by (simp add: round_mag_def)
next
  case False
  then have x: "0 < x" using assms(1) by simp
  let ?q = "quantum x"
  let ?n = "round_half_even (x / ?q)"
  have q: "0 < ?q" by (rule quantum_pos)
  have "of_int ?n * ?q - x = (of_int ?n - x / ?q) * ?q" using q by (simp add: left_diff_distrib)
  also have "\<dots> \<le> (1 / 2) * ?q"
  proof (rule mult_right_mono)
    show "of_int ?n - x / ?q \<le> 1 / 2" using round_half_even_error[of "x / ?q"] by linarith
    show "0 \<le> ?q" using q by simp
  qed
  also have "\<dots> \<le> (1 / 2) * (x / 2 ^ 52 + 1 / 2 ^ 1074)"
    using quantum_le[OF x] by (intro mult_left_mono) auto
  also have "\<dots> \<le> (1 / 2) * (2 ^ 1023 / 2 ^ 52 + 1 / 2 ^ 1074)"
    using assms(2) by (intro mult_left_mono add_right_mono divide_right_mono) auto
  finally have "of_int ?n * ?q \<le> 2 ^ 1023 + (1 / 2) * (2 ^ 1023 / 2 ^ 52 + 1 / 2 ^ 1074)"
    using assms(2) by linarith
  also have "\<dots> < (2 :: rat) ^ 1024" by simp
  finally show ?thesis using x by (simp add: round_mag_def Let_def)
qed

lemma round_mag_fixed:
  assumes "is_double_mag m"
  shows "round_mag m = Some m"
proof (cases "m = 0")
  case True
  then show ?thesis by (simp add: round_mag_def)
next
  case False
  then have m: "0 < m" "m < 2 ^ 1024" and i: "of_int \<lfloor>m / quantum m\<rfloor> = m / quantum m"
    using assms by (auto simp: is_double_mag_def)
  have "round_half_even (m / quantum m) = \<lfloor>m / quantum m\<rfloor>"
    using round_half_even_of_int[of "\<lfloor>m / quantum m\<rfloor>"] i by simp
  then have "of_int (round_half_even (m / quantum m)) * quantum m = (m / quantum m) * quantum m"
    by (simp only: i)
  also have "\<dots> = m" using quantum_pos[of m] by simp
  finally have "of_int (round_half_even (m / quantum m)) * quantum m = m" .
  then show ?thesis using m by (simp add: round_mag_def Let_def)
qed

lemma round_mag_overflow:
  assumes "2 ^ 1024 \<le> x"
  shows "round_mag x = None"
proof -
  have x: "0 < x" using assms by (smt (verit) zero_less_power zero_less_numeral less_le_trans)
  have b: "pow2 (ilog2 x) \<le> x" "x < pow2 (ilog2 x + 1)" using ilog2_bounds[OF x] by auto
  have e: "1024 \<le> ilog2 x"
  proof (rule ccontr)
    assume "\<not> 1024 \<le> ilog2 x"
    then have "ilog2 x + 1 \<le> 1024" by simp
    then have "pow2 (ilog2 x + 1) \<le> pow2 1024" by (rule pow2_mono)
    also have "\<dots> = 2 ^ 1024" by (simp add: pow2_def)
    finally show False using b(2) assms by simp
  qed
  have q: "quantum x = pow2 (ilog2 x - 52)" using e by (simp add: quantum_def max_def)
  have "pow2 52 * pow2 (ilog2 x - 52) = pow2 (ilog2 x)" by (simp add: pow2_add[symmetric])
  then have "pow2 52 \<le> x / pow2 (ilog2 x - 52)"
    using b(1) pow2_pos[of "ilog2 x - 52"] by (simp add: pos_le_divide_eq)
  moreover have "pow2 52 = of_int (2 ^ 52)" by (simp add: pow2_def)
  ultimately have "2 ^ 52 \<le> round_half_even (x / pow2 (ilog2 x - 52))"
    by (intro round_half_even_ge) simp
  then have "(of_int (2 ^ 52) :: rat) \<le> of_int (round_half_even (x / pow2 (ilog2 x - 52)))"
    by (simp only: of_int_le_iff)
  then have "of_int (2 ^ 52) * pow2 (ilog2 x - 52)
      \<le> of_int (round_half_even (x / pow2 (ilog2 x - 52))) * pow2 (ilog2 x - 52)"
    using pow2_pos[of "ilog2 x - 52"] by (intro mult_right_mono) auto
  moreover have "of_int (2 ^ 52) * pow2 (ilog2 x - 52) = pow2 (ilog2 x)"
    using \<open>pow2 52 * pow2 (ilog2 x - 52) = pow2 (ilog2 x)\<close> \<open>pow2 52 = of_int (2 ^ 52)\<close> by simp
  moreover have "(2::rat) ^ 1024 \<le> pow2 (ilog2 x)"
  proof -
    have "pow2 1024 \<le> pow2 (ilog2 x)" using e by (rule pow2_mono)
    then show ?thesis by (simp add: pow2_def)
  qed
  ultimately have "2 ^ 1024 \<le> of_int (round_half_even (x / quantum x)) * quantum x"
    using q by simp
  then show ?thesis using x by (simp add: round_mag_def Let_def)
qed


section \<open>Properties of the comparisons\<close>

lemma lt_NaN_right: "lt x NaN = False"
  by (cases x) simp_all

lemma strict_eq_refl: "\<not> isNaN x \<Longrightarrow> strict_eq x x"
  by (cases x) simp_all

lemma isNaN_round_signed: "\<not> isNaN (round_signed s x)"
  by (simp add: round_signed_def split: option.split)

lemma isNaN_lit: "\<not> isNaN (lit x)"
  by (simp add: lit_def isNaN_round_signed)

lemma isNaN_abs_num: "isNaN (abs_num x) = isNaN x"
  by (cases x) simp_all

lemma ratio_defined:
  assumes "lt (divide_num b orig) x \<or> gt (divide_num b orig) y"
  shows "\<not> isNaN (sub orig b)"
proof (cases orig)
  case (Num s m)
  then show ?thesis using assms
    by (cases b) (simp_all add: Let_def isNaN_round_signed gt_def lt_NaN_right)
next
  case (Infinity s)
  then show ?thesis using assms
    by (cases b) (simp_all add: gt_def lt_NaN_right)
next
  case NaN
  then show ?thesis using assms
    by (cases b) (simp_all add: gt_def lt_NaN_right)
qed

section \<open>The constants of the source text\<close>

lemma round_mag_lb: "round_mag (45359237 / 100000000) = Some (8171193714040401 / 2 ^ 54)"
  using round_mag_eqI[of "- 2" "45359237 / 100000000" "1 / 2 ^ 54" 8171193714040401]
  by (simp add: pow2_def power_int_minus)

lemma round_mag_cm: "round_mag (1 / 100) = Some (5764607523034235 / 2 ^ 59)"
  using round_mag_eqI[of "- 7" "1 / 100" "1 / 2 ^ 59" 5764607523034235]
  by (simp add: pow2_def power_int_minus)

lemma round_mag_in: "round_mag (254 / 10000) = Some (3660525777126739 / 2 ^ 57)"
  using round_mag_eqI[of "- 6" "254 / 10000" "1 / 2 ^ 58" 7321051554253478]
  by (simp add: pow2_def power_int_minus)

lemma round_mag_ft: "round_mag (3048 / 10000) = Some (5490788665690109 / 2 ^ 54)"
  using round_mag_eqI[of "- 2" "3048 / 10000" "1 / 2 ^ 54" 5490788665690109]
  by (simp add: pow2_def power_int_minus)

lemma round_mag_mph: "round_mag (44704 / 100000) = Some (4026578354839413 / 2 ^ 53)"
  using round_mag_eqI[of "- 2" "44704 / 100000" "1 / 2 ^ 54" 8053156709678826]
  by (simp add: pow2_def power_int_minus)

lemma round_mag_36: "round_mag (36 / 10) = Some (8106479329266893 / 2 ^ 51)"
  using round_mag_eqI[of 1 "36 / 10" "1 / 2 ^ 51" 8106479329266893]
  by (simp add: pow2_def power_int_minus)

lemma round_mag_tol: "round_mag (1 / 10 ^ 10) = Some (7737125245533627 / 2 ^ 86)"
  using round_mag_eqI[of "- 34" "1 / 10 ^ 10" "1 / 2 ^ 86" 7737125245533627]
  by (simp add: pow2_def power_int_minus)

lemma round_mag_milli: "round_mag (1 / 1000) = Some (1152921504606847 / 2 ^ 60)"
  using round_mag_eqI[of "- 10" "1 / 1000" "1 / 2 ^ 62" 4611686018427388]
  by (simp add: pow2_def power_int_minus)

lemma round_mag_one: "round_mag 1 = Some 1"
  using round_mag_eqI[of 0 "1" "1 / 2 ^ 52" 4503599627370496]
  by (simp add: pow2_def power_int_minus)

lemma round_mag_sixty: "round_mag 60 = Some 60"
  using round_mag_eqI[of 5 "60" "1 / 2 ^ 47" 8444249301319680]
  by (simp add: pow2_def power_int_minus)

lemma round_mag_thousand: "round_mag 1000 = Some 1000"
  using round_mag_eqI[of 9 "1000" "1 / 2 ^ 43" 8796093022208000]
  by (simp add: pow2_def power_int_minus)

lemma round_mag_kmh: "round_mag (1 / (8106479329266893 / 2 ^ 51)) = Some (2501999792983609 / 2 ^ 53)"
  using round_mag_eqI[of "- 2" "1 / (8106479329266893 / 2 ^ 51)" "1 / 2 ^ 54" 5003999585967218]
  by (simp add: pow2_def power_int_minus)


lemma lit_one: "lit 1 = Num False 1"
  using round_mag_one by (simp add: lit_def round_signed_def)

lemma lit_sixty: "lit 60 = Num False 60"
  using round_mag_sixty by (simp add: lit_def round_signed_def)

lemma lit_thousand: "lit 1000 = Num False 1000"
  using round_mag_thousand by (simp add: lit_def round_signed_def)

lemma lit_lb: "lit (45359237 / 100000000) = Num False (8171193714040401 / 2 ^ 54)"
  using round_mag_lb by (simp add: lit_def round_signed_def)

lemma lit_cm: "lit (1 / 100) = Num False (5764607523034235 / 2 ^ 59)"
  using round_mag_cm by (simp add: lit_def round_signed_def)

lemma lit_in: "lit (254 / 10000) = Num False (3660525777126739 / 2 ^ 57)"
  using round_mag_in by (simp add: lit_def round_signed_def)

lemma lit_ft: "lit (3048 / 10000) = Num False (5490788665690109 / 2 ^ 54)"
  using round_mag_ft by (simp add: lit_def round_signed_def)

lemma lit_mph: "lit (44704 / 100000) = Num False (4026578354839413 / 2 ^ 53)"
  using round_mag_mph by (simp add: lit_def round_signed_def)

lemma lit_36: "lit (36 / 10) = Num False (8106479329266893 / 2 ^ 51)"
  using round_mag_36 by (simp add: lit_def round_signed_def)

lemma lit_tol: "lit (1 / 10 ^ 10) = Num False (7737125245533627 / 2 ^ 86)"
  using round_mag_tol by (simp add: lit_def round_signed_def)

lemma lit_milli: "lit (1 / 1000) = Num False (1152921504606847 / 2 ^ 60)"
  using round_mag_milli by (simp add: lit_def round_signed_def)

lemma factor_kmh: "divide_num (lit 1) (lit (36 / 10)) = Num False (2501999792983609 / 2 ^ 53)"
proof -
  have "divide_num (lit 1) (lit (36 / 10))
          = divide_num (Num False 1) (Num False (8106479329266893 / 2 ^ 51))"
    by (simp only: lit_one lit_36)
  also have "\<dots> = Num False (2501999792983609 / 2 ^ 53)"
    using round_mag_kmh by (simp add: round_signed_def)
  finally show ?thesis .
qed

section \<open>The unit table and the conversions\<close>

lemma table_keys:
  "map fst TO_BASE_FACTORS =
     [''kg'', ''lb'', ''m'', ''cm'', ''in'', ''ft'', ''s'', ''min'', ''m/s'', ''km/h'', ''mph'',
      ''count'', ''percent'', ''score'', ''reps'', ''%'', ''level'']"
  by (simp add: TO_BASE_FACTORS_def)

lemma registered_iff:
  "registered u \<longleftrightarrow>
     u = ''kg'' \<or> u = ''lb'' \<or> u = ''m'' \<or> u = ''cm'' \<or> u = ''in'' \<or> u = ''ft'' \<or> u = ''s''
     \<or> u = ''min'' \<or> u = ''m/s'' \<or> u = ''km/h'' \<or> u = ''mph'' \<or> u = ''count''
     \<or> u = ''percent'' \<or> u = ''score'' \<or> u = ''reps'' \<or> u = ''%'' \<or> u = ''level''"
  unfolding registered_def table_keys by auto

lemma lookup_registered:
  assumes "registered u"
  shows "\<exists>c. map_of TO_BASE_FACTORS u = Some c \<and> lookup u = Own c"
proof -
  have "u \<in> fst ` set TO_BASE_FACTORS" using assms by (simp add: registered_def)
  then obtain c where "map_of TO_BASE_FACTORS u = Some c"
    by (metis map_of_eq_None_iff not_Some_eq)
  then show ?thesis by (simp add: lookup_def)
qed

lemma lookup_constructor: "lookup ''constructor'' = Inherited"
  by (simp add: lookup_def TO_BASE_FACTORS_def object_prototype_keys_def)

lemma not_registered_constructor: "\<not> registered ''constructor''"
  by (simp add: registered_iff)

lemma normalize_constructor: "normalizeUnitString U ''constructor'' = ''constructor''"
  by (simp add: normalizeUnitString_def trim_def toLowerCase_def toLowerCase_char_def
      is_space_def is_ascii_def)

text \<open>The table with its factors as binary64 numbers.\<close>

lemma div_kmh:
  "divide_num (Num False 1) (Num False (8106479329266893 / 2 ^ 51))
     = Num False (2501999792983609 / 2 ^ 53)"
  using round_mag_kmh by (simp add: round_signed_def)

lemma table_values:
  "TO_BASE_FACTORS =
     [(''kg'', \<lparr>factor = Num False 1, base = ''kg''\<rparr>),
      (''lb'', \<lparr>factor = Num False (8171193714040401 / 2 ^ 54), base = ''kg''\<rparr>),
      (''m'', \<lparr>factor = Num False 1, base = ''m''\<rparr>),
      (''cm'', \<lparr>factor = Num False (5764607523034235 / 2 ^ 59), base = ''m''\<rparr>),
      (''in'', \<lparr>factor = Num False (3660525777126739 / 2 ^ 57), base = ''m''\<rparr>),
      (''ft'', \<lparr>factor = Num False (5490788665690109 / 2 ^ 54), base = ''m''\<rparr>),
      (''s'', \<lparr>factor = Num False 1, base = ''s''\<rparr>),
      (''min'', \<lparr>factor = Num False 60, base = ''s''\<rparr>),
      (''m/s'', \<lparr>factor = Num False 1, base = ''m/s''\<rparr>),
      (''km/h'', \<lparr>factor = Num False (2501999792983609 / 2 ^ 53), base = ''m/s''\<rparr>),
      (''mph'', \<lparr>factor = Num False (4026578354839413 / 2 ^ 53), base = ''m/s''\<rparr>),
      (''count'', \<lparr>factor = Num False 1, base = ''count''\<rparr>),
      (''percent'', \<lparr>factor = Num False 1, base = ''percent''\<rparr>),
      (''score'', \<lparr>factor = Num False 1, base = ''score''\<rparr>),
      (''reps'', \<lparr>factor = Num False 1, base = ''reps''\<rparr>),
      (''%'', \<lparr>factor = Num False 1, base = ''%''\<rparr>),
      (''level'', \<lparr>factor = Num False 1, base = ''level''\<rparr>)]"
  by (simp only: TO_BASE_FACTORS_def lit_one lit_sixty lit_lb lit_cm lit_in lit_ft lit_mph
      lit_36 div_kmh)

lemma lookup_kg: "lookup ''kg'' = Own \<lparr>factor = Num False 1, base = ''kg''\<rparr>"
  by (simp add: lookup_def table_values)

lemma lookup_m: "lookup ''m'' = Own \<lparr>factor = Num False 1, base = ''m''\<rparr>"
  by (simp add: lookup_def table_values)

lemma lookup_s: "lookup ''s'' = Own \<lparr>factor = Num False 1, base = ''s''\<rparr>"
  by (simp add: lookup_def table_values)

lemma lookup_mps: "lookup ''m/s'' = Own \<lparr>factor = Num False 1, base = ''m/s''\<rparr>"
  by (simp add: lookup_def table_values)

lemma lookup_count: "lookup ''count'' = Own \<lparr>factor = Num False 1, base = ''count''\<rparr>"
  by (simp add: lookup_def table_values)

lemma lookup_percent: "lookup ''percent'' = Own \<lparr>factor = Num False 1, base = ''percent''\<rparr>"
  by (simp add: lookup_def table_values)

lemma lookup_score: "lookup ''score'' = Own \<lparr>factor = Num False 1, base = ''score''\<rparr>"
  by (simp add: lookup_def table_values)

lemma lookup_reps: "lookup ''reps'' = Own \<lparr>factor = Num False 1, base = ''reps''\<rparr>"
  by (simp add: lookup_def table_values)

lemma lookup_percent_sign: "lookup ''%'' = Own \<lparr>factor = Num False 1, base = ''%''\<rparr>"
  by (simp add: lookup_def table_values)

lemma lookup_level: "lookup ''level'' = Own \<lparr>factor = Num False 1, base = ''level''\<rparr>"
  by (simp add: lookup_def table_values)

lemma lookup_lb:
  "lookup ''lb'' = Own \<lparr>factor = Num False (8171193714040401 / 2 ^ 54), base = ''kg''\<rparr>"
  by (simp only: lookup_def table_values) simp

lemma lookup_cm:
  "lookup ''cm'' = Own \<lparr>factor = Num False (5764607523034235 / 2 ^ 59), base = ''m''\<rparr>"
  by (simp only: lookup_def table_values) simp

lemma lookup_kmh:
  "lookup ''km/h'' = Own \<lparr>factor = Num False (2501999792983609 / 2 ^ 53), base = ''m/s''\<rparr>"
  by (simp only: lookup_def table_values) simp

lemma lookup_mph:
  "lookup ''mph'' = Own \<lparr>factor = Num False (4026578354839413 / 2 ^ 53), base = ''m/s''\<rparr>"
  by (simp only: lookup_def table_values) simp

lemma mul_one: "is_number v \<Longrightarrow> mul v (Num False 1) = v"
  by (cases v) (simp_all add: round_signed_def round_mag_fixed)

lemma is_double_magI:
  assumes "pow2 e \<le> m" "m < pow2 (e + 1)" "- 1022 \<le> e" "e \<le> 1023"
    and "m / pow2 (e - 52) = of_int n"
  shows "is_double_mag m"
proof -
  have q: "quantum m = pow2 (e - 52)" using quantum_eq[OF assms(1,2)] assms(3) by (simp add: max_def)
  have "0 < m" using assms(1) pow2_pos[of e] by simp
  moreover have "m < 2 ^ 1024"
  proof -
    have "pow2 (e + 1) \<le> pow2 1024" using assms(4) by (intro pow2_mono) simp
    then show ?thesis using assms(2) by (simp add: pow2_def)
  qed
  moreover have "of_int \<lfloor>m / quantum m\<rfloor> = m / quantum m"
    by (simp only: q assms(5) floor_of_int)
  ultimately show ?thesis by (simp only: is_double_mag_def) simp
qed

lemma is_double_mag_75: "is_double_mag 75"
  using is_double_magI[of 6 75 5277655813324800]
  by (simp add: pow2_def power_int_minus)

lemma is_double_mag_5: "is_double_mag 5"
  using is_double_magI[of 2 5 5629499534213120]
  by (simp add: pow2_def power_int_minus)

text \<open>
  Claim C4: besides the eleven convertible entries the table has entries for \<open>count\<close>,
  \<open>percent\<close>, \<open>score\<close> and \<open>reps\<close> (and for the percent sign and \<open>level\<close>), each with
  factor \<open>1\<close> and itself as base; \<open>toBase\<close> on these units returns every number as it is
  and does not throw.
\<close>

theorem identity_entries:
  "map fst TO_BASE_FACTORS =
     [''kg'', ''lb'', ''m'', ''cm'', ''in'', ''ft'', ''s'', ''min'', ''m/s'', ''km/h'', ''mph'',
      ''count'', ''percent'', ''score'', ''reps'', ''%'', ''level'']
   \<and> lit 1 = Num False 1
   \<and> map_of TO_BASE_FACTORS ''count'' = Some \<lparr>factor = lit 1, base = ''count''\<rparr>
   \<and> map_of TO_BASE_FACTORS ''percent'' = Some \<lparr>factor = lit 1, base = ''percent''\<rparr>
   \<and> map_of TO_BASE_FACTORS ''score'' = Some \<lparr>factor = lit 1, base = ''score''\<rparr>
   \<and> map_of TO_BASE_FACTORS ''reps'' = Some \<lparr>factor = lit 1, base = ''reps''\<rparr>
   \<and> map_of TO_BASE_FACTORS ''%'' = Some \<lparr>factor = lit 1, base = ''%''\<rparr>
   \<and> (is_number v \<longrightarrow>
        toBase v ''count'' = Inr v \<and> toBase v ''percent'' = Inr v
        \<and> toBase v ''score'' = Inr v \<and> toBase v ''reps'' = Inr v \<and> toBase v ''%'' = Inr v)"
proof (intro conjI impI)
  show "map fst TO_BASE_FACTORS =
     [''kg'', ''lb'', ''m'', ''cm'', ''in'', ''ft'', ''s'', ''min'', ''m/s'', ''km/h'', ''mph'',
      ''count'', ''percent'', ''score'', ''reps'', ''%'', ''level'']"
    by (rule table_keys)
  show "lit 1 = Num False 1" by (rule lit_one)
  show "map_of TO_BASE_FACTORS ''count'' = Some \<lparr>factor = lit 1, base = ''count''\<rparr>"
    by (simp add: TO_BASE_FACTORS_def)
  show "map_of TO_BASE_FACTORS ''percent'' = Some \<lparr>factor = lit 1, base = ''percent''\<rparr>"
    by (simp add: TO_BASE_FACTORS_def)
  show "map_of TO_BASE_FACTORS ''score'' = Some \<lparr>factor = lit 1, base = ''score''\<rparr>"
    by (simp add: TO_BASE_FACTORS_def)
  show "map_of TO_BASE_FACTORS ''reps'' = Some \<lparr>factor = lit 1, base = ''reps''\<rparr>"
    by (simp add: TO_BASE_FACTORS_def)
  show "map_of TO_BASE_FACTORS ''%'' = Some \<lparr>factor = lit 1, base = ''%''\<rparr>"
    by (simp add: TO_BASE_FACTORS_def)
next
  assume v: "is_number v"
  show "toBase v ''count'' = Inr v" by (simp add: toBase_def lookup_count mul_one[OF v])
  show "toBase v ''percent'' = Inr v" by (simp add: toBase_def lookup_percent mul_one[OF v])
  show "toBase v ''score'' = Inr v" by (simp add: toBase_def lookup_score mul_one[OF v])
  show "toBase v ''reps'' = Inr v" by (simp add: toBase_def lookup_reps mul_one[OF v])
  show "toBase v ''%'' = Inr v" by (simp add: toBase_def lookup_percent_sign mul_one[OF v])
qed

theorem identity_entries_witness:
  "is_number (Num False 5)
   \<and> toBase (Num False 5) ''count'' = Inr (Num False 5)
   \<and> toBase (Num False 5) ''percent'' = Inr (Num False 5)
   \<and> toBase (Num False 5) ''score'' = Inr (Num False 5)
   \<and> toBase (Num False 5) ''reps'' = Inr (Num False 5)"
  using identity_entries[of "Num False 5"] is_double_mag_5 by simp

text \<open>
  Claim C5: for two registered units, with table entries \<open>cf\<close> and \<open>ct\<close>, \<open>convertUnit\<close>
  throws the different-base-units error when the bases differ, whatever the value is (no
  arithmetic is done); when the bases agree it returns \<open>fromBase (toBase x fromUnit) toUnit\<close>.
  In particular kilograms to metres and metres per second to kilograms fail for every value.
\<close>

theorem convertUnit_registered:
  assumes "map_of TO_BASE_FACTORS fromUnit = Some cf"
    and "map_of TO_BASE_FACTORS toUnit = Some ct"
  shows "(if base cf \<noteq> base ct
          then convertUnit x fromUnit toUnit
                 = Inl (DifferentBaseUnits (Some (base cf)) (Some (base ct)))
          else toBase x fromUnit = Inr (mul x (factor cf))
               \<and> fromBase (mul x (factor cf)) toUnit
                   = Inr (divide_num (mul x (factor cf)) (factor ct))
               \<and> convertUnit x fromUnit toUnit
                   = Inr (divide_num (mul x (factor cf)) (factor ct)))
         \<and> convertUnit y ''kg'' ''m'' = Inl (DifferentBaseUnits (Some ''kg'') (Some ''m''))
         \<and> convertUnit y ''m/s'' ''kg'' = Inl (DifferentBaseUnits (Some ''m/s'') (Some ''kg''))"
proof -
  have "convertUnit y ''kg'' ''m'' = Inl (DifferentBaseUnits (Some ''kg'') (Some ''m''))"
    by (simp add: convertUnit_def lookup_def TO_BASE_FACTORS_def)
  moreover
  have "convertUnit y ''m/s'' ''kg'' = Inl (DifferentBaseUnits (Some ''m/s'') (Some ''kg''))"
    by (simp add: convertUnit_def lookup_def TO_BASE_FACTORS_def)
  moreover
  have "if base cf \<noteq> base ct
        then convertUnit x fromUnit toUnit
               = Inl (DifferentBaseUnits (Some (base cf)) (Some (base ct)))
        else toBase x fromUnit = Inr (mul x (factor cf))
             \<and> fromBase (mul x (factor cf)) toUnit
                 = Inr (divide_num (mul x (factor cf)) (factor ct))
             \<and> convertUnit x fromUnit toUnit
                 = Inr (divide_num (mul x (factor cf)) (factor ct))"
    using assms by (simp add: convertUnit_def lookup_def toBase_def fromBase_def)
  ultimately show ?thesis by simp
qed

theorem convertUnit_registered_witness:
  "convertUnit (Num False 100) ''lb'' ''s'' = Inl (DifferentBaseUnits (Some ''kg'') (Some ''s''))
   \<and> convertUnit (Num False 3) ''min'' ''s''
       = Inr (divide_num (mul (Num False 3) (lit 60)) (lit 1))"
proof -
  have lb: "map_of TO_BASE_FACTORS ''lb''
              = Some \<lparr>factor = lit (45359237 / 100000000), base = ''kg''\<rparr>"
    by (simp add: TO_BASE_FACTORS_def)
  have s: "map_of TO_BASE_FACTORS ''s'' = Some \<lparr>factor = lit 1, base = ''s''\<rparr>"
    by (simp add: TO_BASE_FACTORS_def)
  have mi: "map_of TO_BASE_FACTORS ''min'' = Some \<lparr>factor = lit 60, base = ''s''\<rparr>"
    by (simp add: TO_BASE_FACTORS_def)
  show ?thesis
    using convertUnit_registered [OF lb s, of "Num False 100" NaN]
      convertUnit_registered [OF mi s, of "Num False 3" NaN]
    by simp
qed

text \<open>
  Claim C6 at a unit that is not registered: \<open>'constructor'\<close> is not a key of the table,
  but the lookup finds the property inherited from \<open>Object.prototype\<close>, nothing is thrown,
  and the safe conversions return \<open>NaN\<close> where the claim has \<open>null\<close>.
\<close>

theorem safeConvert_inherited_key:
  "\<not> registered ''constructor''
   \<and> safeConvertToBase (Some (Num False 100)) ''constructor'' = Some NaN
   \<and> safeConvertFromBase (Some (Num False 100)) ''constructor'' = Some NaN"
  by (simp add: not_registered_constructor safeConvertToBase_def safeConvertFromBase_def
      toBase_def fromBase_def lookup_constructor)

text \<open>
  What the safe conversions do on the other inputs: \<open>null\<close>, \<open>undefined\<close> and \<open>NaN\<close> give
  \<open>null\<close>; so does a unit that is neither a key of the table nor inherited; a registered
  unit gives the result of the strict conversion.
\<close>

lemma safeConvertToBase_cases:
  "safeConvertToBase None u = None"
  "safeConvertToBase (Some NaN) u = None"
  "lookup u = Undefined \<Longrightarrow> safeConvertToBase (Some x) u = None"
  "\<not> isNaN x \<Longrightarrow> toBase x u = Inr r \<Longrightarrow> safeConvertToBase (Some x) u = Some r"
  by (simp_all add: safeConvertToBase_def toBase_def)

lemma safeConvertFromBase_cases:
  "safeConvertFromBase None u = None"
  "safeConvertFromBase (Some NaN) u = None"
  "lookup u = Undefined \<Longrightarrow> safeConvertFromBase (Some x) u = None"
  "\<not> isNaN x \<Longrightarrow> fromBase x u = Inr r \<Longrightarrow> safeConvertFromBase (Some x) u = Some r"
  by (simp_all add: safeConvertFromBase_def fromBase_def)

section \<open>The metric classifier\<close>

lemma includes_some_append:
  "includes_some k (xs @ ys) \<longleftrightarrow> includes_some k xs \<or> includes_some k ys"
  by (induction xs) auto

text \<open>
  Claim C3: \<open>getMetricType\<close> returns a metric type for every string. It maps
  \<open>body_weight\<close> to mass, \<open>height\<close> to length, \<open>vertical_jump\<close> to distance, \<open>deep_squat\<close>
  to score, \<open>push_ups\<close> to count and \<open>unknown_metric\<close> to distance. The scan for the
  keywords of score, count, percent and reps comes first: a key that contains one of
  them gets that type (the first in this order), whatever keywords of mass, length,
  distance, time or speed it contains as well. A key without such a keyword that contains
  a keyword of mass, length, distance, time or speed gets that type (the first in this
  order). A key that contains none of the keywords and none of the listed test names
  gets distance.
\<close>

theorem getMetricType_classifier:
  "getMetricType ''body_weight'' = Mass
   \<and> getMetricType ''height'' = Length
   \<and> getMetricType ''vertical_jump'' = Distance
   \<and> getMetricType ''deep_squat'' = Score
   \<and> getMetricType ''push_ups'' = Count
   \<and> getMetricType ''unknown_metric'' = Distance
   \<and> (includes_some k [''score'', ''fms'', ''rating''] \<longrightarrow> getMetricType k = Score)
   \<and> (\<not> includes_some k [''score'', ''fms'', ''rating'']
        \<and> includes_some k [''count'', ''number''] \<longrightarrow> getMetricType k = Count)
   \<and> (\<not> includes_some k [''score'', ''fms'', ''rating'', ''count'', ''number'']
        \<and> includes_some k [''percent'', ''%''] \<longrightarrow> getMetricType k = Percent)
   \<and> (\<not> includes_some k [''score'', ''fms'', ''rating'', ''count'', ''number'', ''percent'', ''%'']
        \<and> includes_some k [''reps'', ''repetitions''] \<longrightarrow> getMetricType k = Reps)
   \<and> (\<not> includes_some k
          [''score'', ''fms'', ''rating'', ''count'', ''number'', ''percent'', ''%'', ''reps'',
            ''repetitions'']
        \<and> includes_some k [''weight'', ''mass'']
        \<longrightarrow> getMetricType k = Mass)
   \<and> (\<not> includes_some k
          [''score'', ''fms'', ''rating'', ''count'', ''number'', ''percent'', ''%'', ''reps'',
            ''repetitions'', ''weight'', ''mass'']
        \<and> includes_some k [''height'', ''reach'', ''span'']
        \<longrightarrow> getMetricType k = Length)
   \<and> (\<not> includes_some k
          [''score'', ''fms'', ''rating'', ''count'', ''number'', ''percent'', ''%'', ''reps'',
            ''repetitions'', ''weight'', ''mass'', ''height'', ''reach'', ''span'']
        \<and> includes_some k [''distance'', ''jump'']
        \<longrightarrow> getMetricType k = Distance)
   \<and> (\<not> includes_some k
          [''score'', ''fms'', ''rating'', ''count'', ''number'', ''percent'', ''%'', ''reps'',
            ''repetitions'', ''weight'', ''mass'', ''height'', ''reach'', ''span'', ''distance'',
            ''jump'']
        \<and> includes_some k [''time'', ''duration'']
        \<longrightarrow> getMetricType k = Time)
   \<and> (\<not> includes_some k
          [''score'', ''fms'', ''rating'', ''count'', ''number'', ''percent'', ''%'', ''reps'',
            ''repetitions'', ''weight'', ''mass'', ''height'', ''reach'', ''span'', ''distance'',
            ''jump'', ''time'', ''duration'']
        \<and> includes_some k [''speed'', ''velocity'']
        \<longrightarrow> getMetricType k = Speed)
   \<and> (\<not> includes_some k
          ([''score'', ''fms'', ''rating'', ''count'', ''number'', ''percent'', ''%'', ''reps'',
            ''repetitions'', ''weight'', ''mass'', ''height'', ''reach'', ''span'', ''distance'',
            ''jump'', ''time'', ''duration'', ''speed'', ''velocity'']
           @ scoreMetrics @ countMetrics @ repsMetrics @ massMetrics @ lengthMetrics
           @ distanceMetrics @ timeMetrics @ speedMetrics)
        \<longrightarrow> getMetricType k = Distance)"
proof (intro conjI impI)
  show "getMetricType ''body_weight'' = Mass" by (simp add: getMetricType_def)
  show "getMetricType ''height'' = Length" by (simp add: getMetricType_def)
  show "getMetricType ''vertical_jump'' = Distance" by (simp add: getMetricType_def)
  show "getMetricType ''deep_squat'' = Score"
    by (simp add: getMetricType_def scoreMetrics_def)
  show "getMetricType ''push_ups'' = Count"
    by (simp add: getMetricType_def scoreMetrics_def countMetrics_def)
  show "getMetricType ''unknown_metric'' = Distance"
    by (simp add: getMetricType_def scoreMetrics_def countMetrics_def repsMetrics_def
        massMetrics_def lengthMetrics_def distanceMetrics_def timeMetrics_def
        speedMetrics_def)
next
  assume "includes_some k [''score'', ''fms'', ''rating'']"
  then show "getMetricType k = Score" by (simp add: getMetricType_def)
next
  assume "\<not> includes_some k [''score'', ''fms'', ''rating'']
          \<and> includes_some k [''count'', ''number'']"
  then show "getMetricType k = Count" by (simp add: getMetricType_def)
next
  assume "\<not> includes_some k [''score'', ''fms'', ''rating'', ''count'', ''number'']
          \<and> includes_some k [''percent'', ''%'']"
  then show "getMetricType k = Percent" by (simp add: getMetricType_def)
next
  assume "\<not> includes_some k
            [''score'', ''fms'', ''rating'', ''count'', ''number'', ''percent'', ''%'']
          \<and> includes_some k [''reps'', ''repetitions'']"
  then show "getMetricType k = Reps" by (simp add: getMetricType_def)
next
  assume "\<not> includes_some k
          [''score'', ''fms'', ''rating'', ''count'', ''number'', ''percent'', ''%'', ''reps'',
            ''repetitions'']
          \<and> includes_some k [''weight'', ''mass'']"
  then show "getMetricType k = Mass" by (simp add: getMetricType_def)
next
  assume "\<not> includes_some k
          [''score'', ''fms'', ''rating'', ''count'', ''number'', ''percent'', ''%'', ''reps'',
            ''repetitions'', ''weight'', ''mass'']
          \<and> includes_some k [''height'', ''reach'', ''span'']"
  then show "getMetricType k = Length" by (simp add: getMetricType_def)
next
  assume "\<not> includes_some k
          [''score'', ''fms'', ''rating'', ''count'', ''number'', ''percent'', ''%'', ''reps'',
            ''repetitions'', ''weight'', ''mass'', ''height'', ''reach'', ''span'']
          \<and> includes_some k [''distance'', ''jump'']"
  then show "getMetricType k = Distance" by (simp add: getMetricType_def)
next
  assume "\<not> includes_some k
          [''score'', ''fms'', ''rating'', ''count'', ''number'', ''percent'', ''%'', ''reps'',
            ''repetitions'', ''weight'', ''mass'', ''height'', ''reach'', ''span'', ''distance'',
            ''jump'']
          \<and> includes_some k [''time'', ''duration'']"
  then show "getMetricType k = Time" by (simp add: getMetricType_def)
next
  assume "\<not> includes_some k
          [''score'', ''fms'', ''rating'', ''count'', ''number'', ''percent'', ''%'', ''reps'',
            ''repetitions'', ''weight'', ''mass'', ''height'', ''reach'', ''span'', ''distance'',
            ''jump'', ''time'', ''duration'']
          \<and> includes_some k [''speed'', ''velocity'']"
  then show "getMetricType k = Speed" by (simp add: getMetricType_def)
next
  assume "\<not> includes_some k
          ([''score'', ''fms'', ''rating'', ''count'', ''number'', ''percent'', ''%'', ''reps'',
            ''repetitions'', ''weight'', ''mass'', ''height'', ''reach'', ''span'', ''distance'',
            ''jump'', ''time'', ''duration'', ''speed'', ''velocity'']
           @ scoreMetrics @ countMetrics @ repsMetrics @ massMetrics @ lengthMetrics
           @ distanceMetrics @ timeMetrics @ speedMetrics)"
  then show "getMetricType k = Distance"
    by (simp add: getMetricType_def includes_some_append)
qed

theorem getMetricType_classifier_witness:
  "getMetricType ''body_weight_score'' = Score
   \<and> getMetricType ''jump_count'' = Count
   \<and> getMetricType ''time_percent'' = Percent
   \<and> getMetricType ''max_weight_reps'' = Reps
   \<and> getMetricType ''reach_distance'' = Length
   \<and> getMetricType ''jump_duration'' = Distance
   \<and> getMetricType ''grip'' = Distance"
  using getMetricType_classifier[of "''body_weight_score''"]
    getMetricType_classifier[of "''jump_count''"]
    getMetricType_classifier[of "''time_percent''"]
    getMetricType_classifier[of "''max_weight_reps''"]
    getMetricType_classifier[of "''reach_distance''"]
    getMetricType_classifier[of "''jump_duration''"]
    getMetricType_classifier[of "''grip''"]
  by (simp add: scoreMetrics_def countMetrics_def repsMetrics_def massMetrics_def
      lengthMetrics_def distanceMetrics_def timeMetrics_def speedMetrics_def)

section \<open>Migration\<close>

text \<open>The audit fields and the identifier are copied on every path.\<close>

lemma migrateTestResult_audit:
  "result_id (migrateTestResult U r) = result_id r
   \<and> value_raw (migrateTestResult U r) = value r
   \<and> unit_raw (migrateTestResult U r) = units r"
  by (simp add: migrateTestResult_def passthrough_def split: option.split sum.split)

text \<open>The base value on each path of \<open>migrateTestResult\<close>.\<close>

lemma migrateTestResult_value_base:
  "value_base (migrateTestResult U r) =
     (case units r of
        None \<Rightarrow> value r
      | Some u \<Rightarrow>
          if trim U u = [] then value r
          else (case lookup (normalizeUnitString U u) of
                  Own c \<Rightarrow> mul (value r) (factor c)
                | Inherited \<Rightarrow> NaN
                | Undefined \<Rightarrow> value r))"
  by (auto simp add: migrateTestResult_def passthrough_def toBase_def trim_def is_ascii_def
      split: option.split sum.split property.split)

text \<open>
  Claim C2 at a record whose unit string is \<open>'constructor'\<close>: the normalized unit is not
  registered, yet the base value is \<open>NaN\<close> and not the original value \<open>5\<close>, because the
  lookup finds the inherited property and \<open>toBase\<close> does not throw.
\<close>

theorem migrateTestResult_inherited_key:
  "\<not> registered (normalizeUnitString U ''constructor'')
   \<and> value_base (migrateTestResult U
        \<lparr>result_id = ''r1'', test_key = ''body_weight'', value = Num False 5,
         units = Some ''constructor''\<rparr>) = NaN"
  by (simp add: normalize_constructor not_registered_constructor migrateTestResult_def
      toBase_def lookup_constructor trim_def is_space_def is_ascii_def)

section \<open>Validation of a migration\<close>

lemma validate_step_id_mismatch:
  "result_id orig \<noteq> result_id mig \<Longrightarrow>
     validate_step i orig mig (es, ws, c, u, f)
       = (es @ [IdMismatch i (result_id orig) (result_id mig)], ws, c, u, f + 1)"
  by (simp add: validate_step_def)

lemma step_errors_nil:
  "st_errors (validate_step i orig mig st) = [] \<longleftrightarrow>
     st_errors st = [] \<and> result_id orig = result_id mig
     \<and> strict_eq (value_raw mig) (value orig) \<and> unit_raw mig = units orig"
  by (cases st)
     (auto simp add: validate_step_def check_unit_raw_def check_value_raw_def
        check_conversion_def Let_def)

lemma step_failed:
  "st_failed st = length (st_errors st) \<Longrightarrow>
     st_failed (validate_step i orig mig st) = length (st_errors (validate_step i orig mig st))"
  by (cases st)
     (auto simp add: validate_step_def check_unit_raw_def check_value_raw_def
        check_conversion_def Let_def)

lemma step_converted:
  "st_converted (validate_step i orig mig st) =
     st_converted st
     + (if result_id orig = result_id mig
           \<and> \<not> lt (abs_num (sub (value orig) (value_base mig))) (lit (1 / 10 ^ 10))
        then 1 else 0)"
  by (cases st)
     (auto simp add: validate_step_def check_unit_raw_def check_value_raw_def
        check_conversion_def Let_def)

lemma step_unchanged:
  "st_unchanged (validate_step i orig mig st) =
     st_unchanged st
     + (if result_id orig = result_id mig
           \<and> lt (abs_num (sub (value orig) (value_base mig))) (lit (1 / 10 ^ 10))
        then 1 else 0)"
  by (cases st)
     (auto simp add: validate_step_def check_unit_raw_def check_value_raw_def
        check_conversion_def Let_def)

lemma step_warnings:
  "st_warnings (validate_step i orig mig st) =
     st_warnings st
     @ (if result_id orig = result_id mig
           \<and> \<not> lt (abs_num (sub (value orig) (value_base mig))) (lit (1 / 10 ^ 10))
           \<and> (lt (divide_num (value_base mig) (value orig)) (lit (1 / 1000))
                \<or> gt (divide_num (value_base mig) (value orig)) (lit 1000))
        then [SuspiciousConversion (result_id orig) (value orig) (units orig) (value_base mig)
                (divide_num (value_base mig) (value orig))]
        else [])"
  by (cases st)
     (auto simp add: validate_step_def check_unit_raw_def check_value_raw_def
        check_conversion_def Let_def)

lemma step_errors_value_base:
  "st_errors st = st_errors st' \<Longrightarrow> st_failed st = st_failed st' \<Longrightarrow>
     st_errors (validate_step i orig (mig\<lparr>value_base := x\<rparr>) st)
       = st_errors (validate_step i orig mig st')
     \<and> st_failed (validate_step i orig (mig\<lparr>value_base := x\<rparr>) st)
       = st_failed (validate_step i orig mig st')"
  by (cases st; cases st')
     (auto simp add: validate_step_def check_unit_raw_def check_value_raw_def
        check_conversion_def Let_def)

lemma loop_errors_nil:
  "st_errors (validate_loop i original migrated st) = [] \<Longrightarrow> st_errors st = []"
  by (induction i original migrated st rule: validate_loop.induct)
     (simp_all add: step_errors_nil)

lemma loop_errors_nil_iff:
  "length original = length migrated \<Longrightarrow>
   st_errors (validate_loop i original migrated st) = [] \<longleftrightarrow>
     st_errors st = []
     \<and> list_all2 (\<lambda>orig mig. result_id orig = result_id mig
          \<and> strict_eq (value_raw mig) (value orig) \<and> unit_raw mig = units orig)
          original migrated"
proof (induction i original migrated st rule: validate_loop.induct)
  case (1 i orig original mig migrated st)
  then show ?case by (auto simp add: step_errors_nil)
qed simp_all

lemma loop_failed:
  "st_failed st = length (st_errors st) \<Longrightarrow>
     st_failed (validate_loop i original migrated st)
       = length (st_errors (validate_loop i original migrated st))"
  by (induction i original migrated st rule: validate_loop.induct)
     (simp_all add: step_failed)

lemma loop_converted:
  "st_converted (validate_loop i original migrated st) =
     st_converted st
     + length (filter (\<lambda>(orig, mig). result_id orig = result_id mig
          \<and> \<not> lt (abs_num (sub (value orig) (value_base mig))) (lit (1 / 10 ^ 10)))
          (zip original migrated))"
  by (induction i original migrated st rule: validate_loop.induct)
     (simp_all add: step_converted)

lemma loop_unchanged:
  "st_unchanged (validate_loop i original migrated st) =
     st_unchanged st
     + length (filter (\<lambda>(orig, mig). result_id orig = result_id mig
          \<and> lt (abs_num (sub (value orig) (value_base mig))) (lit (1 / 10 ^ 10)))
          (zip original migrated))"
  by (induction i original migrated st rule: validate_loop.induct)
     (simp_all add: step_unchanged)

lemma loop_warnings:
  "st_warnings (validate_loop i original migrated st) =
     st_warnings st
     @ map (\<lambda>(orig, mig). SuspiciousConversion (result_id orig) (value orig) (units orig)
              (value_base mig) (divide_num (value_base mig) (value orig)))
         (filter (\<lambda>(orig, mig). result_id orig = result_id mig
            \<and> \<not> lt (abs_num (sub (value orig) (value_base mig))) (lit (1 / 10 ^ 10))
            \<and> (lt (divide_num (value_base mig) (value orig)) (lit (1 / 1000))
                 \<or> gt (divide_num (value_base mig) (value orig)) (lit 1000)))
            (zip original migrated))"
  by (induction i original migrated st rule: validate_loop.induct)
     (simp_all add: step_warnings)

lemma loop_errors_value_base:
  "st_errors st = st_errors st' \<Longrightarrow> st_failed st = st_failed st' \<Longrightarrow>
     st_errors (validate_loop i original (map (\<lambda>m. m\<lparr>value_base := g m\<rparr>) migrated) st)
       = st_errors (validate_loop i original migrated st')
     \<and> st_failed (validate_loop i original (map (\<lambda>m. m\<lparr>value_base := g m\<rparr>) migrated) st)
       = st_failed (validate_loop i original migrated st')"
proof (induction original arbitrary: i migrated st st')
  case Nil
  then show ?case by simp
next
  case (Cons orig original)
  show ?case
  proof (cases migrated)
    case Nil
    then show ?thesis using Cons.prems by simp
  next
    case (Cons mig migrated')
    have "st_errors (validate_step i orig (mig\<lparr>value_base := g mig\<rparr>) st)
            = st_errors (validate_step i orig mig st')"
      and "st_failed (validate_step i orig (mig\<lparr>value_base := g mig\<rparr>) st)
            = st_failed (validate_step i orig mig st')"
      using step_errors_value_base[OF Cons.prems] by auto
    then show ?thesis using Cons.IH Cons by simp
  qed
qed

lemma validateMigration_fields:
  "length original = length migrated \<Longrightarrow>
     errors (validateMigration original migrated)
       = st_errors (validate_loop 0 original migrated ([], [], 0, 0, 0))
     \<and> warnings (validateMigration original migrated)
       = st_warnings (validate_loop 0 original migrated ([], [], 0, 0, 0))
     \<and> converted (stats (validateMigration original migrated))
       = st_converted (validate_loop 0 original migrated ([], [], 0, 0, 0))
     \<and> unchanged (stats (validateMigration original migrated))
       = st_unchanged (validate_loop 0 original migrated ([], [], 0, 0, 0))
     \<and> failed (stats (validateMigration original migrated))
       = st_failed (validate_loop 0 original migrated ([], [], 0, 0, 0))
     \<and> total (stats (validateMigration original migrated)) = length original
     \<and> success (validateMigration original migrated)
       = (st_errors (validate_loop 0 original migrated ([], [], 0, 0, 0)) = [])"
  by (cases "validate_loop 0 original migrated ([], [], 0, 0, 0)")
     (simp add: validateMigration_def)

text \<open>
  A warning is raised on a pair exactly when the pair is converted in the specification's
  sense and its ratio is out of range: a difference that is \<open>NaN\<close> counts as converted
  in the code, but then the ratio is \<open>NaN\<close> too and compares false.
\<close>

lemma warning_condition:
  "(\<not> lt (abs_num (sub (value orig) (value_base mig))) (lit (1 / 10 ^ 10))
     \<and> (lt (divide_num (value_base mig) (value orig)) (lit (1 / 1000))
          \<or> gt (divide_num (value_base mig) (value orig)) (lit 1000)))
   \<longleftrightarrow>
   (spec_converted orig mig
     \<and> (lt (divide_num (value_base mig) (value orig)) (lit (1 / 1000))
          \<or> gt (divide_num (value_base mig) (value orig)) (lit 1000)))"
  using ratio_defined[of "value_base mig" "value orig" "lit (1 / 1000)" "lit 1000"]
  by (auto simp add: spec_converted_def ge_def isNaN_abs_num isNaN_lit)

lemma spec_converted_imp:
  "spec_converted orig mig \<Longrightarrow>
     \<not> lt (abs_num (sub (value orig) (value_base mig))) (lit (1 / 10 ^ 10))"
  by (simp add: spec_converted_def ge_def)

text \<open>
  Claim C7. When the two sequences differ in length, the report is the length-mismatch
  report: no success, \<open>failed\<close> is the length of the original, nothing is counted as
  converted or unchanged. When they have the same length, \<open>success\<close> holds exactly when
  there is no error, which is exactly when every pair has matching identifiers and an
  exact audit trail; every error counts once in \<open>failed\<close>; the pairs with matching
  identifiers are counted as unchanged or converted by the \<open>1e-10\<close> test, and the
  warnings are the pairs with matching identifiers that are converted in the sense
  \<open>|orig.value - mig.value_base| >= 1e-10\<close> and whose ratio is below \<open>0.001\<close> or above
  \<open>1000\<close>;
  replacing the base values of the migrated records by any others (which changes the
  warnings at will) leaves \<open>success\<close>, the errors and \<open>failed\<close> as they are. An identifier
  mismatch at an index adds its error, counts one failure and runs no other check on the
  pair.
\<close>

theorem validateMigration_report:
  "(length original \<noteq> length migrated \<longrightarrow>
      validateMigration original migrated =
        \<lparr>success = False,
         errors = [LengthMismatch (length original) (length migrated)],
         warnings = [],
         stats = \<lparr>total = length original, converted = 0, unchanged = 0,
                  failed = length original\<rparr>\<rparr>)
   \<and> (length original' = length migrated' \<longrightarrow>
        (success (validateMigration original' migrated')
           \<longleftrightarrow> errors (validateMigration original' migrated') = [])
        \<and> (success (validateMigration original' migrated')
             \<longleftrightarrow> list_all2 (\<lambda>orig mig. result_id orig = result_id mig
                    \<and> strict_eq (value_raw mig) (value orig) \<and> unit_raw mig = units orig)
                    original' migrated')
        \<and> failed (stats (validateMigration original' migrated'))
             = length (errors (validateMigration original' migrated'))
        \<and> converted (stats (validateMigration original' migrated'))
             = length (filter (\<lambda>(orig, mig). result_id orig = result_id mig
                  \<and> \<not> lt (abs_num (sub (value orig) (value_base mig))) (lit (1 / 10 ^ 10)))
                  (zip original' migrated'))
        \<and> unchanged (stats (validateMigration original' migrated'))
             = length (filter (\<lambda>(orig, mig). result_id orig = result_id mig
                  \<and> lt (abs_num (sub (value orig) (value_base mig))) (lit (1 / 10 ^ 10)))
                  (zip original' migrated'))
        \<and> warnings (validateMigration original' migrated')
             = map (\<lambda>(orig, mig). SuspiciousConversion (result_id orig) (value orig)
                      (units orig) (value_base mig) (divide_num (value_base mig) (value orig)))
                 (filter (\<lambda>(orig, mig). result_id orig = result_id mig
                    \<and> spec_converted orig mig
                    \<and> (lt (divide_num (value_base mig) (value orig)) (lit (1 / 1000))
                         \<or> gt (divide_num (value_base mig) (value orig)) (lit 1000)))
                    (zip original' migrated'))
        \<and> success (validateMigration original' (map (\<lambda>m. m\<lparr>value_base := g m\<rparr>) migrated'))
             = success (validateMigration original' migrated')
        \<and> errors (validateMigration original' (map (\<lambda>m. m\<lparr>value_base := g m\<rparr>) migrated'))
             = errors (validateMigration original' migrated')
        \<and> failed (stats (validateMigration original'
               (map (\<lambda>m. m\<lparr>value_base := g m\<rparr>) migrated')))
             = failed (stats (validateMigration original' migrated')))
   \<and> (result_id orig \<noteq> result_id mig \<longrightarrow>
        validate_step i orig mig (es, ws, c, u, f)
          = (es @ [IdMismatch i (result_id orig) (result_id mig)], ws, c, u, f + 1))"
proof (intro conjI impI)
  assume "length original \<noteq> length migrated"
  then show "validateMigration original migrated =
        \<lparr>success = False,
         errors = [LengthMismatch (length original) (length migrated)],
         warnings = [],
         stats = \<lparr>total = length original, converted = 0, unchanged = 0,
                  failed = length original\<rparr>\<rparr>"
    by (simp add: validateMigration_def)
next
  assume "result_id orig \<noteq> result_id mig"
  then show "validate_step i orig mig (es, ws, c, u, f)
          = (es @ [IdMismatch i (result_id orig) (result_id mig)], ws, c, u, f + 1)"
    by (rule validate_step_id_mismatch)
next
  assume len: "length original' = length migrated'"
  let ?st0 = "([], [], 0, 0, 0) :: validation_state"
  note F = validateMigration_fields[OF len]
  show "success (validateMigration original' migrated')
           \<longleftrightarrow> errors (validateMigration original' migrated') = []"
    using F by simp
  show "success (validateMigration original' migrated')
             \<longleftrightarrow> list_all2 (\<lambda>orig mig. result_id orig = result_id mig
                    \<and> strict_eq (value_raw mig) (value orig) \<and> unit_raw mig = units orig)
                    original' migrated'"
    using F loop_errors_nil_iff[OF len, of 0 ?st0] by simp
  show "failed (stats (validateMigration original' migrated'))
             = length (errors (validateMigration original' migrated'))"
    using F loop_failed[of ?st0 0 original' migrated'] by simp
  show "converted (stats (validateMigration original' migrated'))
             = length (filter (\<lambda>(orig, mig). result_id orig = result_id mig
                  \<and> \<not> lt (abs_num (sub (value orig) (value_base mig))) (lit (1 / 10 ^ 10)))
                  (zip original' migrated'))"
    using F loop_converted[of 0 original' migrated' ?st0] by simp
  show "unchanged (stats (validateMigration original' migrated'))
             = length (filter (\<lambda>(orig, mig). result_id orig = result_id mig
                  \<and> lt (abs_num (sub (value orig) (value_base mig))) (lit (1 / 10 ^ 10)))
                  (zip original' migrated'))"
    using F loop_unchanged[of 0 original' migrated' ?st0] by simp
  show "warnings (validateMigration original' migrated')
             = map (\<lambda>(orig, mig). SuspiciousConversion (result_id orig) (value orig)
                      (units orig) (value_base mig) (divide_num (value_base mig) (value orig)))
                 (filter (\<lambda>(orig, mig). result_id orig = result_id mig
                    \<and> spec_converted orig mig
                    \<and> (lt (divide_num (value_base mig) (value orig)) (lit (1 / 1000))
                         \<or> gt (divide_num (value_base mig) (value orig)) (lit 1000)))
                    (zip original' migrated'))"
  proof -
    let ?mk = "\<lambda>(orig, mig). SuspiciousConversion (result_id orig) (value orig)
                 (units orig) (value_base mig) (divide_num (value_base mig) (value orig))"
    let ?code = "\<lambda>(orig, mig). result_id orig = result_id mig
                   \<and> \<not> lt (abs_num (sub (value orig) (value_base mig))) (lit (1 / 10 ^ 10))
                   \<and> (lt (divide_num (value_base mig) (value orig)) (lit (1 / 1000))
                        \<or> gt (divide_num (value_base mig) (value orig)) (lit 1000))"
    let ?spec = "\<lambda>(orig, mig). result_id orig = result_id mig
                   \<and> spec_converted orig mig
                   \<and> (lt (divide_num (value_base mig) (value orig)) (lit (1 / 1000))
                        \<or> gt (divide_num (value_base mig) (value orig)) (lit 1000))"
    have "?code z = ?spec z" for z
      using warning_condition[of "fst z" "snd z"] by (cases z) auto
    then have fe: "filter ?code (zip original' migrated') = filter ?spec (zip original' migrated')"
      by (intro filter_cong) auto
    have "warnings (validateMigration original' migrated')
            = st_warnings (validate_loop 0 original' migrated' ?st0)"
      using F by simp
    also have "\<dots> = map ?mk (filter ?code (zip original' migrated'))"
      using loop_warnings[of 0 original' migrated' ?st0] by simp
    also have "\<dots> = map ?mk (filter ?spec (zip original' migrated'))"
      by (simp only: fe)
    finally show ?thesis .
  qed
  have len': "length original' = length (map (\<lambda>m. m\<lparr>value_base := g m\<rparr>) migrated')"
    using len by simp
  note F' = validateMigration_fields[OF len']
  note V = loop_errors_value_base[of ?st0 ?st0 0 original' g migrated']
  show "errors (validateMigration original' (map (\<lambda>m. m\<lparr>value_base := g m\<rparr>) migrated'))
             = errors (validateMigration original' migrated')"
    using F F' V by simp
  show "success (validateMigration original' (map (\<lambda>m. m\<lparr>value_base := g m\<rparr>) migrated'))
             = success (validateMigration original' migrated')"
    using F F' V by simp
  show "failed (stats (validateMigration original'
               (map (\<lambda>m. m\<lparr>value_base := g m\<rparr>) migrated')))
             = failed (stats (validateMigration original' migrated'))"
    using F F' V by simp
qed

theorem validateMigration_report_witness:
  "validateMigration
     [\<lparr>result_id = ''a'', test_key = ''body_weight'', value = Num False 165,
        units = Some ''lbs''\<rparr>,
      \<lparr>result_id = ''b'', test_key = ''height'', value = Num False 180, units = None\<rparr>]
     [\<lparr>result_id = ''a'', value_base = Num False 75, value_raw = Num False 165,
        unit_raw = Some ''lbs''\<rparr>]
   = \<lparr>success = False, errors = [LengthMismatch 2 1], warnings = [],
      stats = \<lparr>total = 2, converted = 0, unchanged = 0, failed = 2\<rparr>\<rparr>
   \<and> success (validateMigration
        [\<lparr>result_id = ''b'', test_key = ''height'', value = Num False 180, units = None\<rparr>]
        [\<lparr>result_id = ''b'', value_base = Num False 180, value_raw = Num False 180,
           unit_raw = None\<rparr>])
   \<and> validate_step 0
        \<lparr>result_id = ''a'', test_key = ''height'', value = Num False 180, units = None\<rparr>
        \<lparr>result_id = ''b'', value_base = Num False 180, value_raw = Num False 180,
           unit_raw = None\<rparr>
        ([], [], 0, 0, 0)
      = ([IdMismatch 0 ''a'' ''b''], [], 0, 0, 1)"
proof -
  note T = validateMigration_report
    [of "[\<lparr>result_id = ''a'', test_key = ''body_weight'', value = Num False 165,
            units = Some ''lbs''\<rparr>,
          \<lparr>result_id = ''b'', test_key = ''height'', value = Num False 180, units = None\<rparr>]"
        "[\<lparr>result_id = ''a'', value_base = Num False 75, value_raw = Num False 165,
            unit_raw = Some ''lbs''\<rparr>]"
        "[\<lparr>result_id = ''b'', test_key = ''height'', value = Num False 180, units = None\<rparr>]"
        "[\<lparr>result_id = ''b'', value_base = Num False 180, value_raw = Num False 180,
            unit_raw = None\<rparr>]"
        "\<lambda>m. NaN"
        "\<lparr>result_id = ''a'', test_key = ''height'', value = Num False 180, units = None\<rparr>"
        "\<lparr>result_id = ''b'', value_base = Num False 180, value_raw = Num False 180,
            unit_raw = None\<rparr>"
        0 "[]" "[]" 0 0 0]
  have A: "validateMigration
     [\<lparr>result_id = ''a'', test_key = ''body_weight'', value = Num False 165,
        units = Some ''lbs''\<rparr>,
      \<lparr>result_id = ''b'', test_key = ''height'', value = Num False 180, units = None\<rparr>]
     [\<lparr>result_id = ''a'', value_base = Num False 75, value_raw = Num False 165,
        unit_raw = Some ''lbs''\<rparr>]
   = \<lparr>success = False, errors = [LengthMismatch 2 1], warnings = [],
      stats = \<lparr>total = 2, converted = 0, unchanged = 0, failed = 2\<rparr>\<rparr>"
    using T[THEN conjunct1] by (simp add: numeral_2_eq_2)
  have B: "success (validateMigration
        [\<lparr>result_id = ''b'', test_key = ''height'', value = Num False 180, units = None\<rparr>]
        [\<lparr>result_id = ''b'', value_base = Num False 180, value_raw = Num False 180,
           unit_raw = None\<rparr>])"
    using T[THEN conjunct2, THEN conjunct1, THEN mp, THEN conjunct2, THEN conjunct1] by simp
  have C: "validate_step 0
        \<lparr>result_id = ''a'', test_key = ''height'', value = Num False 180, units = None\<rparr>
        \<lparr>result_id = ''b'', value_base = Num False 180, value_raw = Num False 180,
           unit_raw = None\<rparr>
        ([], [], 0, 0, 0)
      = ([IdMismatch 0 ''a'' ''b''], [], 0, 0, 1)"
    using T[THEN conjunct2, THEN conjunct2] by simp
  show ?thesis using A B C by (intro conjI)
qed

text \<open>
  Claim C10, as found in the code: validating a batch against its own migration succeeds,
  with no error and no failure, when no value of the batch is \<open>NaN\<close>.
\<close>

theorem validateMigration_of_migration:
  assumes "list_all (\<lambda>r. \<not> isNaN (value r)) records"
  shows "success (validateMigration records (migrateTestResults U records))
         \<and> errors (validateMigration records (migrateTestResults U records)) = []
         \<and> failed (stats (validateMigration records (migrateTestResults U records))) = 0"
proof -
  have len: "length records = length (migrateTestResults U records)"
    by (simp add: migrateTestResults_def)
  have "list_all2 (\<lambda>orig mig. result_id orig = result_id mig
          \<and> strict_eq (value_raw mig) (value orig) \<and> unit_raw mig = units orig)
          records (migrateTestResults U records)"
    using assms
    by (simp add: migrateTestResults_def list_all2_map2 list_all2_same list_all_iff
        migrateTestResult_audit strict_eq_refl)
  then show ?thesis
    using validateMigration_fields[OF len]
      loop_errors_nil_iff[OF len, of 0 "([], [], 0, 0, 0)"]
      loop_failed[of "([], [], 0, 0, 0)" 0 records "migrateTestResults U records"]
    by simp
qed

theorem validateMigration_of_migration_witness:
  "\<forall>U.
     success (validateMigration
       [\<lparr>result_id = ''2'', test_key = ''height'', value = Num False 180, units = None\<rparr>]
       (migrateTestResults U
         [\<lparr>result_id = ''2'', test_key = ''height'', value = Num False 180, units = None\<rparr>]))
     \<and> errors (validateMigration
       [\<lparr>result_id = ''2'', test_key = ''height'', value = Num False 180, units = None\<rparr>]
       (migrateTestResults U
         [\<lparr>result_id = ''2'', test_key = ''height'', value = Num False 180, units = None\<rparr>]))
       = []"
  using validateMigration_of_migration
    [of "[\<lparr>result_id = ''2'', test_key = ''height'', value = Num False 180, units = None\<rparr>]"]
  by simp

text \<open>
  Claim C10 as stated fails on a record whose value is \<open>NaN\<close>: the audit check
  \<^verbatim>\<open>mig.value_raw !== orig.value\<close> compares \<open>NaN\<close> with itself and reports a mismatch.
\<close>

theorem validateMigration_of_migration_counterexample:
  "\<forall>U.
     \<not> success (validateMigration
       [\<lparr>result_id = ''2'', test_key = ''height'', value = NaN, units = None\<rparr>]
       (migrateTestResults U
         [\<lparr>result_id = ''2'', test_key = ''height'', value = NaN, units = None\<rparr>]))"
  by (simp add: validateMigration_def migrateTestResults_def migrateTestResult_def
      passthrough_def validate_step_def check_conversion_def check_value_raw_def
      check_unit_raw_def lt_NaN_right gt_def Let_def)

section \<open>Known conversions\<close>

lemma round_mag_inv_cm: "round_mag (1 / (5764607523034235 / 2 ^ 59)) = Some 100"
  using round_mag_eqI[of 6 "1 / (5764607523034235 / 2 ^ 59)" "1 / 2 ^ 46" 7036874417766400]
  by (simp add: pow2_def power_int_minus)

lemma round_mag_ten: "round_mag 10 = Some 10"
  using round_mag_eqI[of 3 "10" "1 / 2 ^ 49" 5629499534213120]
  by (simp add: pow2_def power_int_minus)

lemma round_mag_ten_kmh: "round_mag (10 / (2501999792983609 / 2 ^ 53)) = Some 36"
  using round_mag_eqI[of 5 "10 / (2501999792983609 / 2 ^ 53)" "1 / 2 ^ 47" 5066549580791808]
  by (simp add: pow2_def power_int_minus)

lemma round_mag_inv_lb: "round_mag (1 / (8171193714040401 / 2 ^ 54)) = Some (1241092202281339 / 2 ^ 49)"
  using round_mag_eqI[of 1 "1 / (8171193714040401 / 2 ^ 54)" "1 / 2 ^ 51" 4964368809125356]
  by (simp add: pow2_def power_int_minus)

lemma round_mag_inv_mph: "round_mag (1 / (4026578354839413 / 2 ^ 53)) = Some (5037132725673873 / 2 ^ 51)"
  using round_mag_eqI[of 1 "1 / (4026578354839413 / 2 ^ 53)" "1 / 2 ^ 51" 5037132725673873]
  by (simp add: pow2_def power_int_minus)


lemma base_units:
  "remdups (map (\<lambda>(u, c). base c) TO_BASE_FACTORS) =
     [''kg'', ''m'', ''s'', ''m/s'', ''count'', ''percent'', ''score'', ''reps'', ''%'', ''level'']"
  by (simp add: TO_BASE_FACTORS_def)

lemma lookup_base_unit:
  assumes "b \<in> set [''kg'', ''m'', ''s'', ''m/s'', ''count'', ''percent'', ''score'', ''reps'',
                    ''%'', ''level'']"
  shows "lookup b = Own \<lparr>factor = Num False 1, base = b\<rparr>"
  using assms lookup_kg lookup_m lookup_s lookup_mps lookup_count lookup_percent lookup_score
    lookup_reps lookup_percent_sign lookup_level
  by auto

lemma toBase_base_unit:
  assumes "map_of TO_BASE_FACTORS u = Some c" "is_number v"
  shows "toBase v (base c) = Inr v"
proof -
  have "(u, c) \<in> set TO_BASE_FACTORS" using assms(1) by (rule map_of_SomeD)
  then have "base c \<in> set (map (\<lambda>(u, c). base c) TO_BASE_FACTORS)" by force
  then have "base c \<in> set (remdups (map (\<lambda>(u, c). base c) TO_BASE_FACTORS))" by simp
  then have "lookup (base c) = Own \<lparr>factor = Num False 1, base = base c\<rparr>"
    unfolding base_units by (rule lookup_base_unit)
  then show ?thesis by (simp add: toBase_def mul_one[OF assms(2)])
qed

text \<open>
  Claim C8: the base units of the table are \<open>kg\<close>, \<open>m\<close>, \<open>s\<close>, \<open>m/s\<close>, \<open>count\<close>,
  \<open>percent\<close>, \<open>score\<close>, \<open>reps\<close>, the percent sign and \<open>level\<close>; converting to the base
  unit of any entry of the table leaves every number as it is. One metre is exactly
  \<open>100\<close> centimetres; ten metres per second are exactly \<open>36\<close> kilometres per hour; one
  kilogram is within \<open>1e-5\<close> of \<open>2.20462\<close> pounds and one metre per second within \<open>1e-5\<close>
  of \<open>2.23694\<close> miles per hour.
\<close>

theorem known_constants:
  "remdups (map (\<lambda>(u, c). base c) TO_BASE_FACTORS) =
     [''kg'', ''m'', ''s'', ''m/s'', ''count'', ''percent'', ''score'', ''reps'', ''%'', ''level'']
   \<and> (map_of TO_BASE_FACTORS u = Some c \<and> is_number v \<longrightarrow> toBase v (base c) = Inr v)
   \<and> (is_number v \<longrightarrow>
        toBase v ''kg'' = Inr v \<and> toBase v ''m'' = Inr v \<and> toBase v ''s'' = Inr v
        \<and> toBase v ''m/s'' = Inr v \<and> toBase v ''count'' = Inr v
        \<and> toBase v ''percent'' = Inr v \<and> toBase v ''score'' = Inr v
        \<and> toBase v ''reps'' = Inr v \<and> toBase v ''%'' = Inr v \<and> toBase v ''level'' = Inr v)
   \<and> fromBase (Num False 1) ''cm'' = Inr (Num False 100)
   \<and> toBase (Num False 10) ''m/s'' = Inr (Num False 10)
   \<and> fromBase (Num False 10) ''km/h'' = Inr (Num False 36)
   \<and> fromBase (Num False 1) ''lb'' = Inr (Num False (1241092202281339 / 2 ^ 49))
   \<and> \<bar>1241092202281339 / 2 ^ 49 - 220462 / 100000\<bar> \<le> (1 / 100000 :: rat)
   \<and> fromBase (Num False 1) ''mph'' = Inr (Num False (5037132725673873 / 2 ^ 51))
   \<and> \<bar>5037132725673873 / 2 ^ 51 - 223694 / 100000\<bar> \<le> (1 / 100000 :: rat)"
proof (intro conjI impI)
  show "remdups (map (\<lambda>(u, c). base c) TO_BASE_FACTORS) =
     [''kg'', ''m'', ''s'', ''m/s'', ''count'', ''percent'', ''score'', ''reps'', ''%'', ''level'']"
    by (rule base_units)
next
  assume "map_of TO_BASE_FACTORS u = Some c \<and> is_number v"
  then show "toBase v (base c) = Inr v" by (elim conjE) (rule toBase_base_unit)
next
  assume v: "is_number v"
  show "toBase v ''kg'' = Inr v" by (simp add: toBase_def lookup_kg mul_one[OF v])
  show "toBase v ''m'' = Inr v" by (simp add: toBase_def lookup_m mul_one[OF v])
  show "toBase v ''s'' = Inr v" by (simp add: toBase_def lookup_s mul_one[OF v])
  show "toBase v ''m/s'' = Inr v" by (simp add: toBase_def lookup_mps mul_one[OF v])
  show "toBase v ''count'' = Inr v" by (simp add: toBase_def lookup_count mul_one[OF v])
  show "toBase v ''percent'' = Inr v" by (simp add: toBase_def lookup_percent mul_one[OF v])
  show "toBase v ''score'' = Inr v" by (simp add: toBase_def lookup_score mul_one[OF v])
  show "toBase v ''reps'' = Inr v" by (simp add: toBase_def lookup_reps mul_one[OF v])
  show "toBase v ''%'' = Inr v" by (simp add: toBase_def lookup_percent_sign mul_one[OF v])
  show "toBase v ''level'' = Inr v" by (simp add: toBase_def lookup_level mul_one[OF v])
next
  show "fromBase (Num False 1) ''cm'' = Inr (Num False 100)"
    using round_mag_inv_cm by (simp add: fromBase_def lookup_cm round_signed_def)
  show "toBase (Num False 10) ''m/s'' = Inr (Num False 10)"
    using round_mag_ten by (simp add: toBase_def lookup_mps round_signed_def)
  show "fromBase (Num False 10) ''km/h'' = Inr (Num False 36)"
    using round_mag_ten_kmh by (simp add: fromBase_def lookup_kmh round_signed_def)
  show "fromBase (Num False 1) ''lb'' = Inr (Num False (1241092202281339 / 2 ^ 49))"
    using round_mag_inv_lb by (simp add: fromBase_def lookup_lb round_signed_def)
  show "fromBase (Num False 1) ''mph'' = Inr (Num False (5037132725673873 / 2 ^ 51))"
    using round_mag_inv_mph by (simp add: fromBase_def lookup_mph round_signed_def)
  show "\<bar>1241092202281339 / 2 ^ 49 - 220462 / 100000\<bar> \<le> (1 / 100000 :: rat)" by simp
  show "\<bar>5037132725673873 / 2 ^ 51 - 223694 / 100000\<bar> \<le> (1 / 100000 :: rat)" by simp
qed

theorem known_constants_witness:
  "map_of TO_BASE_FACTORS ''lb''
     = Some \<lparr>factor = lit (45359237 / 100000000), base = ''kg''\<rparr>
   \<and> is_number (Num False 75)
   \<and> toBase (Num False 75) ''kg'' = Inr (Num False 75)
   \<and> toBase (Num False 75) ''score'' = Inr (Num False 75)"
proof -
  have lb: "map_of TO_BASE_FACTORS ''lb''
              = Some \<lparr>factor = lit (45359237 / 100000000), base = ''kg''\<rparr>"
    by (simp add: TO_BASE_FACTORS_def)
  have n: "is_number (Num False 75)" using is_double_mag_75 by simp
  have T: "(map_of TO_BASE_FACTORS ''lb''
              = Some \<lparr>factor = lit (45359237 / 100000000), base = ''kg''\<rparr>
            \<and> is_number (Num False 75)
            \<longrightarrow> toBase (Num False 75)
                  (base \<lparr>factor = lit (45359237 / 100000000), base = ''kg''\<rparr>)
                = Inr (Num False 75))"
    using known_constants[of "''lb''" "\<lparr>factor = lit (45359237 / 100000000), base = ''kg''\<rparr>"
        "Num False 75"]
    by (elim conjE)
  have "toBase (Num False 75) ''kg'' = Inr (Num False 75)"
    using T lb n by simp
  moreover have "toBase (Num False 75) ''score'' = Inr (Num False 75)"
    using known_constants[of "''lb''" "\<lparr>factor = lit (45359237 / 100000000), base = ''kg''\<rparr>"
        "Num False 75"] n
    by (elim conjE) simp
  ultimately show ?thesis using lb n by (intro conjI)
qed

section \<open>The round trip\<close>

lemma round_mag_million_lb: "round_mag (1000000 * (8171193714040401 / 2 ^ 54)) = Some (3896328789730263 / 2 ^ 33)"
  using round_mag_eqI[of 18 "1000000 * (8171193714040401 / 2 ^ 54)" "1 / 2 ^ 34" 7792657579460526]
  by (simp add: pow2_def power_int_minus)

lemma round_mag_million_back: "round_mag ((3896328789730263 / 2 ^ 33) / (8171193714040401 / 2 ^ 54)) = Some (8589934591999999 / 2 ^ 33)"
  using round_mag_eqI[of 19 "(3896328789730263 / 2 ^ 33) / (8171193714040401 / 2 ^ 54)" "1 / 2 ^ 33" 8589934591999999]
  by (simp add: pow2_def power_int_minus)

lemma round_mag_million_diff: "round_mag (1 / 2 ^ 33) = Some (1 / 2 ^ 33)"
  using round_mag_eqI[of "- 33" "1 / 2 ^ 33" "1 / 2 ^ 85" 4503599627370496]
  by (simp add: pow2_def power_int_minus)


lemma lookup_in:
  "lookup ''in'' = Own \<lparr>factor = Num False (3660525777126739 / 2 ^ 57), base = ''m''\<rparr>"
  by (simp only: lookup_def table_values) simp

lemma lookup_ft:
  "lookup ''ft'' = Own \<lparr>factor = Num False (5490788665690109 / 2 ^ 54), base = ''m''\<rparr>"
  by (simp only: lookup_def table_values) simp

lemma lookup_min: "lookup ''min'' = Own \<lparr>factor = Num False 60, base = ''s''\<rparr>"
  by (simp only: lookup_def table_values) simp

lemma is_double_mag_million: "is_double_mag 1000000"
  using is_double_magI[of 19 1000000 8589934592000000]
  by (simp add: pow2_def power_int_minus)

lemma validateRoundTrip_eq:
  "toBase v u = Inr b \<Longrightarrow> fromBase b u = Inr d \<Longrightarrow>
     validateRoundTrip v u None = Inr (lt (abs_num (sub v d)) (lit (1 / 10 ^ 10)))"
  by (simp add: validateRoundTrip_def)

text \<open>
  Claim C1 as stated fails at the value \<open>1000000\<close> with the unit \<open>lb\<close>: the product with
  the factor and the quotient by it are each rounded, the round trip returns
  \<open>1000000 - 1 / 2 ^ 33\<close>, and the difference \<open>1 / 2 ^ 33\<close> (about \<open>1.16e-10\<close>) is not
  below the tolerance.
\<close>

theorem validateRoundTrip_million_lb:
  "is_number (Num False 1000000)
   \<and> validateRoundTrip (Num False 1000000) ''lb'' None = Inr False"
proof -
  have 1: "toBase (Num False 1000000) ''lb'' = Inr (Num False (3896328789730263 / 2 ^ 33))"
    using round_mag_million_lb by (simp add: toBase_def lookup_lb round_signed_def)
  have 2: "fromBase (Num False (3896328789730263 / 2 ^ 33)) ''lb''
             = Inr (Num False (8589934591999999 / 2 ^ 33))"
    using round_mag_million_back by (simp add: fromBase_def lookup_lb round_signed_def)
  have 3: "sub (Num False 1000000) (Num False (8589934591999999 / 2 ^ 33))
             = Num False (1 / 2 ^ 33)"
    using round_mag_million_diff by (simp add: round_signed_def Let_def)
  have 4: "\<not> lt (Num False (1 / 2 ^ 33)) (lit (1 / 10 ^ 10))"
    by (simp only: lit_tol) simp
  have "validateRoundTrip (Num False 1000000) ''lb'' None
          = Inr (lt (abs_num (sub (Num False 1000000) (Num False (8589934591999999 / 2 ^ 33))))
                   (lit (1 / 10 ^ 10)))"
    by (rule validateRoundTrip_eq[OF 1 2])
  also have "\<dots> = Inr False" using 4 by (simp only: 3 abs_num.simps)
  finally show ?thesis by (simp add: is_double_mag_million)
qed

text \<open>
  At the largest finite number the product with the factor \<open>60\<close> of \<open>min\<close> overflows to
  infinity, and the round trip fails as well.
\<close>

lemma validateRoundTrip_overflow:
  "validateRoundTrip (Num False (2 ^ 1024 - 2 ^ 971)) ''min'' None = Inr False"
proof -
  have "round_mag ((2 ^ 1024 - 2 ^ 971) * 60) = None"
    by (rule round_mag_overflow) simp
  then have 1: "toBase (Num False (2 ^ 1024 - 2 ^ 971)) ''min'' = Inr (Infinity False)"
    by (simp add: toBase_def lookup_min round_signed_def)
  have 2: "fromBase (Infinity False) ''min'' = Inr (Infinity False)"
    by (simp add: fromBase_def lookup_min)
  show ?thesis
    by (simp only: validateRoundTrip_eq[OF 1 2] lit_tol sub.simps abs_num.simps lt.simps)
qed

lemma round_mag_error_weak:
  assumes "0 \<le> x" "round_mag x = Some r"
  shows "\<bar>r - x\<bar> \<le> x / 2 ^ 53 + 1 / 2 ^ 100"
proof -
  have "\<bar>r - x\<bar> \<le> x / 2 ^ 53 + 1 / 2 ^ 1075" using assms by (rule round_mag_error)
  moreover have "(1 :: rat) / 2 ^ 1075 \<le> 1 / 2 ^ 100" by simp
  ultimately show ?thesis by linarith
qed

lemma sub_within_tolerance:
  assumes "0 \<le> v" "0 \<le> r" "\<bar>v - r\<bar> \<le> 99921 / 10 ^ 15"
  shows "lt (abs_num (sub (Num False v) (Num False r))) (lit (1 / 10 ^ 10))"
proof (cases "v - r = 0")
  case True
  then show ?thesis by (simp only: lit_tol) simp
next
  case False
  have d: "0 \<le> \<bar>v - r\<bar>" by simp
  have "\<bar>v - r\<bar> \<le> 2 ^ 1023" using assms(3) by simp
  then obtain r3 where r3: "round_mag \<bar>v - r\<bar> = Some r3"
    using round_mag_finite[OF d] by blast
  have "\<bar>r3 - \<bar>v - r\<bar>\<bar> \<le> \<bar>v - r\<bar> / 2 ^ 53 + 1 / 2 ^ 100"
    using round_mag_error_weak[OF d r3] .
  then have "r3 \<le> \<bar>v - r\<bar> + (\<bar>v - r\<bar> / 2 ^ 53 + 1 / 2 ^ 100)" by linarith
  also have "\<dots> = \<bar>v - r\<bar> * (1 + 1 / 2 ^ 53) + 1 / 2 ^ 100" by (simp add: field_simps)
  also have "\<dots> \<le> (99921 / 10 ^ 15) * (1 + 1 / 2 ^ 53) + 1 / 2 ^ 100"
    using assms(3) by (intro add_right_mono mult_right_mono) auto
  also have "\<dots> < 7737125245533627 / 2 ^ 86" by simp
  finally have "r3 < 7737125245533627 / 2 ^ 86" .
  moreover have "sub (Num False v) (Num False r) = Num (v - r < 0) r3"
    using False r3 by (simp add: round_signed_def Let_def)
  ultimately show ?thesis by (simp only: lit_tol) simp
qed

text \<open>Numbers at or above a power of two lie on the grid of that binade.\<close>

lemma ilog2_ge:
  assumes "pow2 e \<le> x"
  shows "e \<le> ilog2 x"
proof (rule ccontr)
  assume "\<not> e \<le> ilog2 x"
  then have "ilog2 x + 1 \<le> e" by simp
  then have "pow2 (ilog2 x + 1) \<le> pow2 e" by (rule pow2_mono)
  moreover have "0 < x" using assms pow2_pos[of e] by linarith
  then have "x < pow2 (ilog2 x + 1)" using ilog2_bounds by blast
  ultimately show False using assms by linarith
qed

lemma quantum_grid:
  assumes "pow2 e \<le> x" "- 1022 \<le> e"
  shows "\<exists>j::int. 0 < j \<and> quantum x = of_int j * pow2 (e - 52)"
proof -
  define E where "E = ilog2 x"
  have E: "e \<le> E" unfolding E_def using assms(1) by (rule ilog2_ge)
  then have "max E (- 1022) = E" using assms(2) by simp
  then have "quantum x = pow2 (E - 52)" by (simp add: quantum_def E_def)
  also have "E - 52 = int (nat (E - e)) + (e - 52)" using E by simp
  also have "pow2 \<dots> = pow2 (int (nat (E - e))) * pow2 (e - 52)" by (rule pow2_add)
  also have "pow2 (int (nat (E - e))) = of_int (2 ^ nat (E - e))"
    using pow2_nat[of "nat (E - e)"] by simp
  finally have "quantum x = of_int (2 ^ nat (E - e)) * pow2 (e - 52)" .
  moreover have "(0 :: int) < 2 ^ nat (E - e)" by simp
  ultimately show ?thesis by blast
qed

lemma round_mag_grid:
  assumes "round_mag x = Some r" "pow2 e \<le> x" "- 1022 \<le> e"
  shows "\<exists>k::int. r = of_int k * pow2 (e - 52)"
proof -
  have x: "0 < x" using assms(2) pow2_pos[of e] by linarith
  obtain j :: int where j: "quantum x = of_int j * pow2 (e - 52)"
    using quantum_grid[OF assms(2,3)] by blast
  have "r = of_int (round_half_even (x / quantum x)) * quantum x"
    using assms(1) x by (simp add: round_mag_def Let_def split: if_splits)
  then have "r = of_int (round_half_even (x / quantum x) * j) * pow2 (e - 52)"
    by (simp add: j)
  then show ?thesis by blast
qed

lemma double_grid:
  assumes "is_double_mag v" "pow2 e \<le> v" "- 1022 \<le> e"
  shows "\<exists>k::int. v = of_int k * pow2 (e - 52)"
proof -
  have x: "0 < v" using assms(2) pow2_pos[of e] by linarith
  obtain j :: int where j: "quantum v = of_int j * pow2 (e - 52)"
    using quantum_grid[OF assms(2,3)] by blast
  have q: "0 < quantum v" by (rule quantum_pos)
  define n where "n = \<lfloor>v / quantum v\<rfloor>"
  have "v = 0 \<or> of_int \<lfloor>v / quantum v\<rfloor> = v / quantum v"
    using assms(1) unfolding is_double_mag_def by (elim conjE)
  then have "of_int n = v / quantum v" unfolding n_def using x by (elim disjE) simp_all
  then have "v = of_int n * quantum v" using q by (simp add: field_simps)
  then have "v = of_int (n * j) * pow2 (e - 52)"
    by (simp add: j)
  then show ?thesis by blast
qed

lemma round_half_even_le:
  assumes "y \<le> of_int k"
  shows "round_half_even y \<le> k"
proof (cases "y = of_int k")
  case True
  then show ?thesis by (simp add: round_half_even_of_int)
next
  case False
  then have "y < of_int k" using assms by simp
  then have "\<lfloor>y\<rfloor> < k" by (simp add: floor_less_iff)
  then show ?thesis by (simp add: round_half_even_def Let_def)
qed

lemma round_mag_le_pow2:
  assumes "round_mag x = Some r" "x \<le> pow2 E" "- 1022 \<le> E"
  shows "r \<le> pow2 E"
proof (cases "x \<le> 0")
  case True
  then have "r = 0" using assms(1) by (simp add: round_mag_def)
  then show ?thesis using pow2_pos[of E] by simp
next
  case False
  then have x: "0 < x" by simp
  define e where "e = ilog2 x"
  define k where "k = max e (- 1022) - 52"
  have "pow2 e \<le> x" unfolding e_def using ilog2_bounds[OF x] by simp
  then have "pow2 e \<le> pow2 E" using assms(2) by linarith
  then have "e \<le> E"
    using pow2_strict_mono[of E e] by (cases "e \<le> E") auto
  then have kE: "k \<le> E" unfolding k_def using assms(3) by simp
  have q: "quantum x = pow2 k" by (simp add: quantum_def e_def k_def)
  have qpos: "0 < pow2 k" by (rule pow2_pos)
  have "E = int (nat (E - k)) + k" using kE by simp
  then have "pow2 E = pow2 (int (nat (E - k))) * pow2 k" by (metis pow2_add)
  then have PE: "pow2 E = of_int (2 ^ nat (E - k)) * pow2 k"
    using pow2_nat[of "nat (E - k)"] by simp
  have "x / pow2 k \<le> pow2 E / pow2 k" using assms(2) qpos by (simp add: divide_right_mono)
  also have "\<dots> = of_int (2 ^ nat (E - k))" using qpos by (simp add: PE)
  finally have "round_half_even (x / pow2 k) \<le> 2 ^ nat (E - k)" by (rule round_half_even_le)
  then have "(of_int (round_half_even (x / pow2 k)) :: rat) \<le> of_int (2 ^ nat (E - k))"
    by (simp only: of_int_le_iff)
  then have "of_int (round_half_even (x / pow2 k)) * pow2 k \<le> of_int (2 ^ nat (E - k)) * pow2 k"
    using qpos by (intro mult_right_mono) auto
  moreover have "r = of_int (round_half_even (x / pow2 k)) * pow2 k"
    using assms(1) x by (simp add: round_mag_def Let_def q split: if_splits)
  ultimately show ?thesis by (simp only: PE)
qed

lemma sub_far:
  assumes "0 \<le> v" "0 \<le> r" "1 / 2 ^ 33 \<le> \<bar>v - r\<bar>"
  shows "\<not> lt (abs_num (sub (Num False v) (Num False r))) (lit (1 / 10 ^ 10))"
proof -
  have ne: "v - r \<noteq> 0" using assms(3) by auto
  have d: "0 \<le> \<bar>v - r\<bar>" by simp
  show ?thesis
  proof (cases "round_mag \<bar>v - r\<bar>")
    case None
    then have "sub (Num False v) (Num False r) = Infinity (v - r < 0)"
      using ne by (simp add: round_signed_def Let_def)
    then show ?thesis by (simp only: lit_tol) simp
  next
    case (Some r3)
    have "\<bar>r3 - \<bar>v - r\<bar>\<bar> \<le> \<bar>v - r\<bar> / 2 ^ 53 + 1 / 2 ^ 100"
      using round_mag_error_weak[OF d Some] .
    then have "\<bar>v - r\<bar> - (\<bar>v - r\<bar> / 2 ^ 53 + 1 / 2 ^ 100) \<le> r3" by linarith
    moreover have "\<bar>v - r\<bar> - (\<bar>v - r\<bar> / 2 ^ 53 + 1 / 2 ^ 100)
                     = \<bar>v - r\<bar> * (1 - 1 / 2 ^ 53) - 1 / 2 ^ 100"
      by (simp add: field_simps)
    moreover have "(1 / 2 ^ 33) * (1 - 1 / 2 ^ 53) \<le> \<bar>v - r\<bar> * (1 - 1 / 2 ^ 53)"
      using assms(3) by (intro mult_right_mono) auto
    moreover have "(7737125245533627 :: rat) / 2 ^ 86 \<le> (1 / 2 ^ 33) * (1 - 1 / 2 ^ 53) - 1 / 2 ^ 100"
      by simp
    ultimately have "7737125245533627 / 2 ^ 86 \<le> r3" by linarith
    moreover have "sub (Num False v) (Num False r) = Num (v - r < 0) r3"
      using ne Some by (simp add: round_signed_def Let_def)
    ultimately show ?thesis by (simp only: lit_tol) simp
  qed
qed

lemma round_mag_pow19_one: "round_mag (524288 * 1) = Some (524288 * 1)"
  using round_mag_eqI[of 19 "524288 * 1" "1 / 2 ^ 33" 4503599627370496]
  by (simp add: pow2_def power_int_minus)

lemma round_mag_pow19_lb: "round_mag (524288 * (8171193714040401 / 2 ^ 54)) = Some (524288 * (8171193714040401 / 2 ^ 54))"
  using round_mag_eqI[of 17 "524288 * (8171193714040401 / 2 ^ 54)" "1 / 2 ^ 35" 8171193714040401]
  by (simp add: pow2_def power_int_minus)

lemma round_mag_pow19_cm: "round_mag (524288 * (5764607523034235 / 2 ^ 59)) = Some (524288 * (5764607523034235 / 2 ^ 59))"
  using round_mag_eqI[of 12 "524288 * (5764607523034235 / 2 ^ 59)" "1 / 2 ^ 40" 5764607523034235]
  by (simp add: pow2_def power_int_minus)

lemma round_mag_pow19_in: "round_mag (524288 * (3660525777126739 / 2 ^ 57)) = Some (524288 * (3660525777126739 / 2 ^ 57))"
  using round_mag_eqI[of 13 "524288 * (3660525777126739 / 2 ^ 57)" "1 / 2 ^ 39" 7321051554253478]
  by (simp add: pow2_def power_int_minus)

lemma round_mag_pow19_ft: "round_mag (524288 * (5490788665690109 / 2 ^ 54)) = Some (524288 * (5490788665690109 / 2 ^ 54))"
  using round_mag_eqI[of 17 "524288 * (5490788665690109 / 2 ^ 54)" "1 / 2 ^ 35" 5490788665690109]
  by (simp add: pow2_def power_int_minus)

lemma round_mag_pow19_min: "round_mag (524288 * 60) = Some (524288 * 60)"
  using round_mag_eqI[of 24 "524288 * 60" "1 / 2 ^ 28" 8444249301319680]
  by (simp add: pow2_def power_int_minus)

lemma round_mag_pow19_kmh: "round_mag (524288 * (2501999792983609 / 2 ^ 53)) = Some (524288 * (2501999792983609 / 2 ^ 53))"
  using round_mag_eqI[of 17 "524288 * (2501999792983609 / 2 ^ 53)" "1 / 2 ^ 35" 5003999585967218]
  by (simp add: pow2_def power_int_minus)

lemma round_mag_pow19_mph: "round_mag (524288 * (4026578354839413 / 2 ^ 53)) = Some (524288 * (4026578354839413 / 2 ^ 53))"
  using round_mag_eqI[of 17 "524288 * (4026578354839413 / 2 ^ 53)" "1 / 2 ^ 35" 8053156709678826]
  by (simp add: pow2_def power_int_minus)

lemma round_trip_error:
  assumes v: "0 < v" "v \<le> 524288" and f: "1 / 128 \<le> f" "f \<le> 64"
  shows "\<exists>r1 r2. round_mag (v * f) = Some r1 \<and> round_mag (r1 / f) = Some r2
           \<and> 0 \<le> r2
           \<and> \<bar>r1 / f - v\<bar> \<le> v / 2 ^ 53 + (1 / 2 ^ 100) * 128
           \<and> \<bar>v - r2\<bar> \<le> v * (2 / 2 ^ 53 + 1 / 2 ^ 106) + (129 / 2 ^ 100 + 128 / 2 ^ 153)"
proof -
  have fpos: "0 < f" using f(1) by simp
  have x1: "0 \<le> v * f" using v(1) fpos by simp
  have "v * f \<le> 524288 * 64" using v f fpos by (intro mult_mono) auto
  then have "v * f \<le> 2 ^ 1023" by simp
  then obtain r1 where r1: "round_mag (v * f) = Some r1"
    using round_mag_finite[OF x1] by blast
  have e1: "\<bar>r1 - v * f\<bar> \<le> v * f / 2 ^ 53 + 1 / 2 ^ 100"
    using round_mag_error_weak[OF x1 r1] .
  have r1pos: "0 \<le> r1" using round_mag_nonneg[OF x1 r1] .
  define a where "a = r1 / f"
  have apos: "0 \<le> a" using r1pos fpos by (simp add: a_def)
  have inv: "1 / f \<le> 128" using f(1) fpos by (simp add: field_simps)
  have "a - v = (r1 - v * f) / f" using fpos by (simp add: a_def field_simps)
  then have "\<bar>a - v\<bar> = \<bar>r1 - v * f\<bar> / f" using fpos by (simp add: abs_divide)
  also have "\<dots> \<le> (v * f / 2 ^ 53 + 1 / 2 ^ 100) / f"
    using e1 fpos by (intro divide_right_mono) auto
  also have "\<dots> = v / 2 ^ 53 + (1 / 2 ^ 100) * (1 / f)"
    using fpos by (simp add: field_simps)
  also have "\<dots> \<le> v / 2 ^ 53 + (1 / 2 ^ 100) * 128"
    using inv by (intro add_left_mono mult_left_mono) auto
  finally have e2: "\<bar>a - v\<bar> \<le> v / 2 ^ 53 + (1 / 2 ^ 100) * 128" .
  have a_le: "a \<le> v + (v / 2 ^ 53 + (1 / 2 ^ 100) * 128)" using e2 by linarith
  also have "\<dots> \<le> 524288 + (524288 / 2 ^ 53 + (1 / 2 ^ 100) * 128)"
    using v(2) by (intro add_mono divide_right_mono) auto
  also have "\<dots> \<le> 2 ^ 1023" by simp
  finally have "a \<le> 2 ^ 1023" .
  then obtain r2 where r2: "round_mag a = Some r2"
    using round_mag_finite[OF apos] by blast
  have e3: "\<bar>r2 - a\<bar> \<le> a / 2 ^ 53 + 1 / 2 ^ 100"
    using round_mag_error_weak[OF apos r2] .
  have r2pos: "0 \<le> r2" using round_mag_nonneg[OF apos r2] .
  have "a / 2 ^ 53 \<le> (v + (v / 2 ^ 53 + (1 / 2 ^ 100) * 128)) / 2 ^ 53"
    using a_le by (intro divide_right_mono) auto
  then have e3':
    "\<bar>r2 - a\<bar> \<le> (v + (v / 2 ^ 53 + (1 / 2 ^ 100) * 128)) / 2 ^ 53 + 1 / 2 ^ 100"
    using e3 by linarith
  have "\<bar>v - r2\<bar> \<le> \<bar>r2 - a\<bar> + \<bar>a - v\<bar>" by linarith
  also have "\<dots> \<le> ((v + (v / 2 ^ 53 + (1 / 2 ^ 100) * 128)) / 2 ^ 53 + 1 / 2 ^ 100)
                    + (v / 2 ^ 53 + (1 / 2 ^ 100) * 128)"
    using e2 e3' by linarith
  also have "\<dots> = v * (2 / 2 ^ 53 + 1 / 2 ^ 106) + (129 / 2 ^ 100 + 128 / 2 ^ 153)"
    by (simp add: field_simps)
  finally have "\<bar>v - r2\<bar> \<le> v * (2 / 2 ^ 53 + 1 / 2 ^ 106) + (129 / 2 ^ 100 + 128 / 2 ^ 153)" .
  then show ?thesis using r1 r2 r2pos e2 unfolding a_def by blast
qed

lemma pow2_m34: "pow2 (18 - 52) = 1 / 2 ^ 34"
  by (simp add: pow2_def power_int_minus)

lemma pow2_m33: "pow2 (19 - 52) = 1 / 2 ^ 33"
  by (simp add: pow2_def power_int_minus)

lemma pow2_18: "pow2 18 = 262144"
  by (simp add: pow2_def)

lemma pow2_19: "pow2 19 = 524288"
  by (simp add: pow2_def)

lemma round_trip_close:
  assumes f: "1 / 128 \<le> f" "f \<le> 64"
    and p19: "round_mag (524288 * f) = Some (524288 * f)"
    and v: "is_double_mag v" "0 < v" "v \<le> 524288"
  shows "\<exists>r1 r2. round_mag (v * f) = Some r1 \<and> round_mag (r1 / f) = Some r2
           \<and> 0 \<le> r2 \<and> \<bar>v - r2\<bar> \<le> 99921 / 10 ^ 15"
proof -
  have fpos: "0 < f" using f(1) by simp
  consider "v = 524288" | "v \<le> 450000" | "450000 < v" "v < 524288"
    using v(3) by linarith
  then show ?thesis
  proof cases
    case 1
    have "524288 * f / f = 524288" using fpos by simp
    moreover have "round_mag v = Some v" using v(1) by (rule round_mag_fixed)
    ultimately have "round_mag (524288 * f / f) = Some 524288" using 1 by simp
    then show ?thesis using p19 unfolding 1 by (intro exI[of _ "524288 * f"] exI[of _ 524288]) simp
  next
    case 2
    obtain r1 r2 where r: "round_mag (v * f) = Some r1" "round_mag (r1 / f) = Some r2"
        "0 \<le> r2"
        "\<bar>v - r2\<bar> \<le> v * (2 / 2 ^ 53 + 1 / 2 ^ 106) + (129 / 2 ^ 100 + 128 / 2 ^ 153)"
      using round_trip_error[OF v(2,3) f] by blast
    have "v * (2 / 2 ^ 53 + 1 / 2 ^ 106) + (129 / 2 ^ 100 + 128 / 2 ^ 153)
            \<le> 450000 * (2 / 2 ^ 53 + 1 / 2 ^ 106) + (129 / 2 ^ 100 + 128 / 2 ^ 153)"
      using 2 by (intro add_right_mono mult_right_mono) auto
    also have "\<dots> \<le> 99921 / 10 ^ 15" by simp
    finally have "\<bar>v - r2\<bar> \<le> 99921 / 10 ^ 15" using r(4) by linarith
    then show ?thesis using r by blast
  next
    case 3
    obtain r1 r2 where r: "round_mag (v * f) = Some r1" "round_mag (r1 / f) = Some r2"
        "0 \<le> r2" "\<bar>r1 / f - v\<bar> \<le> v / 2 ^ 53 + (1 / 2 ^ 100) * 128"
        "\<bar>v - r2\<bar> \<le> v * (2 / 2 ^ 53 + 1 / 2 ^ 106) + (129 / 2 ^ 100 + 128 / 2 ^ 153)"
      using round_trip_error[OF v(2,3) f] by blast
    have v18: "pow2 18 \<le> v" using 3(1) by (simp add: pow2_18)
    have "\<exists>k::int. v = of_int k * pow2 (18 - 52)"
      by (rule double_grid[OF v(1) v18]) simp
    then obtain kv :: int where kv: "v = of_int kv * (1 / 2 ^ 34)"
      unfolding pow2_m34 by blast
    have "v / 2 ^ 53 \<le> 524288 / 2 ^ 53" using v(3) by (intro divide_right_mono) auto
    then have "450000 - (524288 / 2 ^ 53 + (1 / 2 ^ 100) * 128) \<le> r1 / f"
      using r(4) 3(1) by linarith
    moreover have "(262144 :: rat) \<le> 450000 - (524288 / 2 ^ 53 + (1 / 2 ^ 100) * 128)"
      by simp
    ultimately have a18: "pow2 18 \<le> r1 / f" by (simp only: pow2_18)
    have "\<exists>k::int. r2 = of_int k * pow2 (18 - 52)"
      by (rule round_mag_grid[OF r(2) a18]) simp
    then obtain kr :: int where kr: "r2 = of_int kr * (1 / 2 ^ 34)"
      unfolding pow2_m34 by blast
    have "of_int kv * (1 / 2 ^ 34) < (524288 :: rat)" using 3(2) kv by simp
    then have "(of_int kv :: rat) < of_int (2 ^ 53)" by (simp add: field_simps)
    then have "kv < 2 ^ 53" by (simp only: of_int_less_iff)
    then have "kv \<le> 2 ^ 53 - 1" by simp
    then have "(of_int kv :: rat) \<le> of_int (2 ^ 53 - 1)" by (simp only: of_int_le_iff)
    then have "v \<le> 524288 - 1 / 2 ^ 34" unfolding kv by (simp add: field_simps)
    then have "v * (2 / 2 ^ 53 + 1 / 2 ^ 106) + (129 / 2 ^ 100 + 128 / 2 ^ 153)
            \<le> (524288 - 1 / 2 ^ 34) * (2 / 2 ^ 53 + 1 / 2 ^ 106)
               + (129 / 2 ^ 100 + 128 / 2 ^ 153)"
      by (intro add_right_mono mult_right_mono) auto
    also have "\<dots> < 2 * (1 / 2 ^ 34)" by simp
    finally have "\<bar>v - r2\<bar> < 2 * (1 / 2 ^ 34)" using r(5) by linarith
    moreover have d: "v - r2 = of_int (kv - kr) * (1 / 2 ^ 34)"
      unfolding kv kr by (simp add: algebra_simps)
    ultimately have "\<bar>of_int (kv - kr) * (1 / 2 ^ 34 :: rat)\<bar> < 2 * (1 / 2 ^ 34)" by simp
    then have "\<bar>(of_int (kv - kr) :: rat)\<bar> < of_int 2" by (simp add: abs_mult)
    then have "\<bar>kv - kr\<bar> < 2" by (simp only: of_int_abs[symmetric] of_int_less_iff)
    then have "\<bar>kv - kr\<bar> \<le> 1" by simp
    then have "(of_int \<bar>kv - kr\<bar> :: rat) \<le> of_int 1" by (simp only: of_int_le_iff)
    then have "\<bar>(of_int (kv - kr) :: rat)\<bar> \<le> 1" by simp
    then have "\<bar>of_int (kv - kr) * (1 / 2 ^ 34 :: rat)\<bar> \<le> 1 * (1 / 2 ^ 34)"
      unfolding abs_mult by (intro mult_mono) auto
    then have "\<bar>v - r2\<bar> \<le> 1 / 2 ^ 34" unfolding d by simp
    moreover have "(1 :: rat) / 2 ^ 34 \<le> 99921 / 10 ^ 15" by simp
    ultimately have "\<bar>v - r2\<bar> \<le> 99921 / 10 ^ 15" by linarith
    then show ?thesis using r by blast
  qed
qed

lemma round_trip_far:
  assumes v: "is_double_mag v" "524288 < v"
    and r2: "round_mag a = Some r2" "r2 \<noteq> v"
  shows "1 / 2 ^ 33 \<le> \<bar>v - r2\<bar>"
proof -
  have v19: "pow2 19 \<le> v" using v(2) by (simp add: pow2_19)
  have "\<exists>k::int. v = of_int k * pow2 (19 - 52)"
    by (rule double_grid[OF v(1) v19]) simp
  then obtain kv :: int where kv: "v = of_int kv * (1 / 2 ^ 33)"
    unfolding pow2_m33 by blast
  show ?thesis
  proof (cases "pow2 19 \<le> a")
    case True
    have "\<exists>k::int. r2 = of_int k * pow2 (19 - 52)"
      by (rule round_mag_grid[OF r2(1) True]) simp
    then obtain kr :: int where kr: "r2 = of_int kr * (1 / 2 ^ 33)"
      unfolding pow2_m33 by blast
    have d: "v - r2 = of_int (kv - kr) * (1 / 2 ^ 33)"
      unfolding kv kr by (simp add: algebra_simps)
    have "kv \<noteq> kr" using r2(2) kv kr by auto
    then have "1 \<le> \<bar>kv - kr\<bar>" by simp
    then have "(of_int 1 :: rat) \<le> of_int \<bar>kv - kr\<bar>" by (simp only: of_int_le_iff)
    then have "1 \<le> \<bar>(of_int (kv - kr) :: rat)\<bar>" by simp
    then have "1 * (1 / 2 ^ 33) \<le> \<bar>(of_int (kv - kr) :: rat)\<bar> * (1 / 2 ^ 33)"
      by (intro mult_right_mono) auto
    then show ?thesis unfolding d abs_mult by simp
  next
    case False
    then have "a \<le> pow2 19" by simp
    then have "r2 \<le> pow2 19" using round_mag_le_pow2[OF r2(1)] by simp
    then have r2le: "r2 \<le> 524288" by (simp only: pow2_19)
    have "(524288 :: rat) < of_int kv * (1 / 2 ^ 33)" using v(2) kv by simp
    then have "(of_int (2 ^ 52) :: rat) < of_int kv" by (simp add: field_simps)
    then have "2 ^ 52 < kv" by (simp only: of_int_less_iff)
    then have "2 ^ 52 + 1 \<le> kv" by simp
    then have "(of_int (2 ^ 52 + 1) :: rat) \<le> of_int kv" by (simp only: of_int_le_iff)
    then have "524288 + 1 / 2 ^ 33 \<le> v" unfolding kv by (simp add: field_simps)
    then show ?thesis using r2le by linarith
  qed
qed

lemma round_trip_unit_factor:
  assumes lk: "lookup u = Own \<lparr>factor = Num False 1, base = bu\<rparr>"
    and v: "is_double_mag v" "0 < v"
  shows "toBase (Num False v) u = Inr (Num False v)"
    and "fromBase (Num False v) u = Inr (Num False v)"
    and "validateRoundTrip (Num False v) u None = Inr True"
proof -
  have r: "round_mag v = Some v" using v(1) by (rule round_mag_fixed)
  show 1: "toBase (Num False v) u = Inr (Num False v)"
    using lk r by (simp add: toBase_def round_signed_def)
  show 2: "fromBase (Num False v) u = Inr (Num False v)"
    using lk r by (simp add: fromBase_def round_signed_def)
  have "lt (abs_num (sub (Num False v) (Num False v))) (lit (1 / 10 ^ 10))"
    by (simp only: lit_tol) simp
  then show "validateRoundTrip (Num False v) u None = Inr True"
    by (simp only: validateRoundTrip_eq[OF 1 2])
qed

lemma round_trip_far_result:
  assumes v: "is_double_mag v" "524288 < v" and f: "0 < f"
  shows "lt (abs_num (sub (Num False v) (divide_num (round_signed False (v * f)) (Num False f))))
            (lit (1 / 10 ^ 10))
         = (divide_num (round_signed False (v * f)) (Num False f) = Num False v)"
proof (cases "round_mag (v * f)")
  case None
  then have "divide_num (round_signed False (v * f)) (Num False f) = Infinity False"
    by (simp add: round_signed_def)
  then show ?thesis by (simp only: lit_tol) simp
next
  case (Some r1)
  then have d: "divide_num (round_signed False (v * f)) (Num False f)
                  = round_signed False (r1 / f)"
    using f by (simp add: round_signed_def)
  show ?thesis
  proof (cases "round_mag (r1 / f)")
    case None
    then have "divide_num (round_signed False (v * f)) (Num False f) = Infinity False"
      unfolding d by (simp add: round_signed_def)
    then show ?thesis by (simp only: lit_tol) simp
  next
    case r2: (Some r2)
    then have d2: "divide_num (round_signed False (v * f)) (Num False f) = Num False r2"
      unfolding d by (simp add: round_signed_def)
    have vpos: "0 \<le> v" using v(2) by simp
    have "0 \<le> v * f" using v(2) f by simp
    then have "0 \<le> r1" using Some by (rule round_mag_nonneg)
    then have "0 \<le> r1 / f" using f by simp
    then have r2pos: "0 \<le> r2" using r2 by (rule round_mag_nonneg)
    show ?thesis
    proof (cases "r2 = v")
      case True
      have "lt (abs_num (sub (Num False v) (Num False v))) (lit (1 / 10 ^ 10))"
        by (simp only: lit_tol) simp
      then show ?thesis unfolding d2 True by simp
    next
      case False
      have "1 / 2 ^ 33 \<le> \<bar>v - r2\<bar>" using round_trip_far[OF v r2 False] .
      then have "\<not> lt (abs_num (sub (Num False v) (Num False r2))) (lit (1 / 10 ^ 10))"
        using sub_far[OF vpos r2pos] by blast
      then show ?thesis unfolding d2 using False by simp
    qed
  qed
qed

lemma round_trip_entry:
  assumes lk: "lookup u = Own \<lparr>factor = Num False f, base = bu\<rparr>"
    and f: "1 / 128 \<le> f" "f \<le> 64"
    and p19: "round_mag (524288 * f) = Some (524288 * f)"
    and v: "is_double_mag v" "0 < v"
  shows "\<exists>b d. toBase (Num False v) u = Inr b \<and> fromBase b u = Inr d
           \<and> (f = 1 \<longrightarrow> b = Num False v \<and> d = Num False v)
           \<and> (f = 1 \<or> v \<le> 524288 \<longrightarrow>
                (\<exists>r. d = Num False r \<and> \<bar>r - v\<bar> < 1 / 10 ^ 10)
                \<and> validateRoundTrip (Num False v) u None = Inr True)
           \<and> (524288 < v \<longrightarrow>
                validateRoundTrip (Num False v) u None = Inr (d = Num False v))"
proof -
  have fpos: "0 < f" using f(1) by simp
  consider "f = 1" | "f \<noteq> 1" "v \<le> 524288" | "f \<noteq> 1" "524288 < v" by linarith
  then show ?thesis
  proof cases
    case 1
    have lk1: "lookup u = Own \<lparr>factor = Num False 1, base = bu\<rparr>" using lk 1 by simp
    show ?thesis
      using round_trip_unit_factor[OF lk1 v]
      by (intro exI[of _ "Num False v"]) simp
  next
    case 2
    obtain r1 r2 where r: "round_mag (v * f) = Some r1" "round_mag (r1 / f) = Some r2"
        "0 \<le> r2" "\<bar>v - r2\<bar> \<le> 99921 / 10 ^ 15"
      using round_trip_close[OF f p19 v 2(2)] by blast
    have fne: "f \<noteq> 0" using fpos by simp
    have a: "toBase (Num False v) u = Inr (Num False r1)"
      using lk r(1) by (simp add: toBase_def round_signed_def)
    have b: "fromBase (Num False r1) u = Inr (Num False r2)"
      using lk r(2) fne by (simp add: fromBase_def round_signed_def)
    have c: "lt (abs_num (sub (Num False v) (Num False r2))) (lit (1 / 10 ^ 10))"
      using sub_within_tolerance[OF _ r(3,4)] v(2) by simp
    have d: "validateRoundTrip (Num False v) u None = Inr True"
      by (simp only: validateRoundTrip_eq[OF a b] c)
    have "\<bar>r2 - v\<bar> = \<bar>v - r2\<bar>" by (rule abs_minus_commute)
    moreover have "(99921 :: rat) / 10 ^ 15 < 1 / 10 ^ 10" by simp
    ultimately have "\<bar>r2 - v\<bar> < 1 / 10 ^ 10" using r(4) by linarith
    then show ?thesis using a b d 2
      by (intro exI[of _ "Num False r1"] exI[of _ "Num False r2"]) simp
  next
    case 3
    define b where "b = round_signed False (v * f)"
    define d where "d = divide_num b (Num False f)"
    have a: "toBase (Num False v) u = Inr b"
      using lk by (simp add: toBase_def b_def)
    have c: "fromBase b u = Inr d"
      using lk by (simp add: fromBase_def d_def)
    have "validateRoundTrip (Num False v) u None = Inr (d = Num False v)"
      unfolding validateRoundTrip_eq[OF a c] d_def b_def
      using round_trip_far_result[OF v(1) 3(2) fpos] by simp
    then show ?thesis using a c 3
      by (intro exI[of _ b] exI[of _ d]) simp
  qed
qed

lemma table_factor:
  assumes "(u, c) \<in> set TO_BASE_FACTORS"
  shows "factor c = Num False (val (factor c))
         \<and> val (factor c)
             \<in> set [1, 8171193714040401 / 2 ^ 54, 5764607523034235 / 2 ^ 59,
                     3660525777126739 / 2 ^ 57, 5490788665690109 / 2 ^ 54, 60,
                     2501999792983609 / 2 ^ 53, 4026578354839413 / 2 ^ 53]"
  using assms unfolding table_values by auto

lemma factor_list:
  "list_all (\<lambda>f. 1 / 128 \<le> f \<and> f \<le> 64 \<and> round_mag (524288 * f) = Some (524288 * f))
     [1, 8171193714040401 / 2 ^ 54, 5764607523034235 / 2 ^ 59,
      3660525777126739 / 2 ^ 57, 5490788665690109 / 2 ^ 54, 60,
      2501999792983609 / 2 ^ 53, 4026578354839413 / 2 ^ 53]"
  using round_mag_pow19_one round_mag_pow19_lb round_mag_pow19_cm round_mag_pow19_in
    round_mag_pow19_ft round_mag_pow19_min round_mag_pow19_kmh round_mag_pow19_mph
  by simp

lemma factor_facts:
  assumes "f \<in> set [1, 8171193714040401 / 2 ^ 54, 5764607523034235 / 2 ^ 59,
                      3660525777126739 / 2 ^ 57, 5490788665690109 / 2 ^ 54, 60,
                      2501999792983609 / 2 ^ 53, 4026578354839413 / 2 ^ 53]"
  shows "1 / 128 \<le> f \<and> f \<le> 64 \<and> round_mag (524288 * f) = Some (524288 * f)"
  using factor_list assms unfolding list_all_iff by (rule bspec)

lemma is_double_mag_half_million: "is_double_mag 500000"
  using is_double_magI[of 18 500000 8589934592000000]
  by (simp add: pow2_def power_int_minus)


text \<open>
  Claim C1, as found in the code. Let \<open>v\<close> be a finite positive number and \<open>u\<close> a unit of
  the table. If the factor of \<open>u\<close> is \<open>1\<close>, both conversions return \<open>v\<close> itself. If the
  factor is \<open>1\<close> or \<open>v\<close> is at most \<open>2\<^sup>1\<^sup>9 = 524288\<close>, the round trip is a finite number
  within \<open>1e-10\<close> of \<open>v\<close> and \<open>validateRoundTrip\<close> with the default tolerance returns
  true. Above \<open>2\<^sup>1\<^sup>9\<close> neighbouring numbers are at least \<open>2\<^sup>-\<^sup>3\<^sup>3\<close> apart, which is more
  than the tolerance, and \<open>validateRoundTrip\<close> returns true exactly when the round trip
  returns \<open>v\<close> itself.
\<close>

theorem round_trip_within_tolerance:
  assumes "map_of TO_BASE_FACTORS u = Some c" "is_double_mag v" "0 < v"
  shows "\<exists>b d. toBase (Num False v) u = Inr b \<and> fromBase b u = Inr d
           \<and> (factor c = lit 1 \<longrightarrow> b = Num False v \<and> d = Num False v)
           \<and> (factor c = lit 1 \<or> v \<le> 524288 \<longrightarrow>
                (\<exists>r. d = Num False r \<and> \<bar>r - v\<bar> < 1 / 10 ^ 10)
                \<and> validateRoundTrip (Num False v) u None = Inr True)
           \<and> (524288 < v \<longrightarrow>
                validateRoundTrip (Num False v) u None = Inr (d = Num False v))"
proof -
  obtain fc bc where c: "c = \<lparr>factor = fc, base = bc\<rparr>" by (cases c)
  have "(u, c) \<in> set TO_BASE_FACTORS" using assms(1) by (rule map_of_SomeD)
  then obtain f where f: "factor c = Num False f"
      "f \<in> set [1, 8171193714040401 / 2 ^ 54, 5764607523034235 / 2 ^ 59,
                 3660525777126739 / 2 ^ 57, 5490788665690109 / 2 ^ 54, 60,
                 2501999792983609 / 2 ^ 53, 4026578354839413 / 2 ^ 53]"
    using table_factor[of u c] by blast
  have fc: "fc = Num False f" using f(1) c by simp
  have lk: "lookup u = Own \<lparr>factor = Num False f, base = bc\<rparr>"
    using assms(1) by (simp add: lookup_def c fc)
  have one: "(factor c = lit 1) = (f = 1)" by (simp add: f(1) lit_one)
  have ff: "1 / 128 \<le> f" "f \<le> 64" "round_mag (524288 * f) = Some (524288 * f)"
    using factor_facts[OF f(2)] by blast+
  show ?thesis unfolding one by (rule round_trip_entry[OF lk ff assms(2,3)])
qed

theorem round_trip_within_tolerance_witness:
  "validateRoundTrip (Num False 500000) ''lb'' None = Inr True
   \<and> validateRoundTrip (Num False 1000000) ''kg'' None = Inr True
   \<and> (\<exists>b d. toBase (Num False 1000000) ''cm'' = Inr b \<and> fromBase b ''cm'' = Inr d
         \<and> validateRoundTrip (Num False 1000000) ''cm'' None = Inr (d = Num False 1000000))"
proof -
  have lb: "map_of TO_BASE_FACTORS ''lb''
              = Some \<lparr>factor = lit (45359237 / 100000000), base = ''kg''\<rparr>"
    by (simp add: TO_BASE_FACTORS_def)
  have kg: "map_of TO_BASE_FACTORS ''kg'' = Some \<lparr>factor = lit 1, base = ''kg''\<rparr>"
    by (simp add: TO_BASE_FACTORS_def)
  have cm: "map_of TO_BASE_FACTORS ''cm'' = Some \<lparr>factor = lit (1 / 100), base = ''m''\<rparr>"
    by (simp add: TO_BASE_FACTORS_def)
  have "validateRoundTrip (Num False 500000) ''lb'' None = Inr True"
    using round_trip_within_tolerance[OF lb is_double_mag_half_million] by auto
  moreover have "validateRoundTrip (Num False 1000000) ''kg'' None = Inr True"
    using round_trip_within_tolerance[OF kg is_double_mag_million] by auto
  moreover have "\<exists>b d. toBase (Num False 1000000) ''cm'' = Inr b \<and> fromBase b ''cm'' = Inr d
         \<and> validateRoundTrip (Num False 1000000) ''cm'' None = Inr (d = Num False 1000000)"
    using round_trip_within_tolerance[OF cm is_double_mag_million] by auto
  ultimately show ?thesis by (intro conjI)
qed

section \<open>Formatting\<close>











































end
